theory Spec2Isabelle
  imports Main "HOL-Library.Word"
begin

unbundle bit_operations_syntax

section \<open>pcanflash: the flashing session of \<^verbatim>\<open>main\<close> (pcanflash.c)\<close>

text \<open>
  The program is one C function, \<^verbatim>\<open>main\<close>.  It is embedded as a pure function from
  the command line and the answers of the outside world (libc, the kernel, the CAN bus
  helpers) to the list of helper calls it makes and the way the process ends.

  \<^verbatim>\<open>main\<close> includes the headers \<^verbatim>\<open>pcanflash.h\<close>, \<^verbatim>\<open>pcanfunc.h\<close>, \<^verbatim>\<open>pcanhw.h\<close> and
  \<^verbatim>\<open>crc16.h\<close>; what they declare is defined outside \<^verbatim>\<open>pcanflash.c\<close>.  Their constants,
  tables and helper results are collected as fields of the record \<open>headers\<close> and are
  passed to every function; nothing is assumed about them unless a theorem says so.
\<close>

subsection \<open>Bytes, C integer types and buffers\<close>

type_synonym u8 = "8 word"
type_synonym u16 = "16 word"
type_synonym u32 = "32 word"

text \<open>The integer types a field of the checksum table can have.\<close>

datatype ctype = U8 | U16 | U32 | S8 | S16 | S32

fun sizeof :: "ctype \<Rightarrow> nat" where
  "sizeof U8 = 1"
| "sizeof U16 = 2"
| "sizeof U32 = 4"
| "sizeof S8 = 1"
| "sizeof S16 = 2"
| "sizeof S32 = 4"

fun is_signed :: "ctype \<Rightarrow> bool" where
  "is_signed U8 = False"
| "is_signed U16 = False"
| "is_signed U32 = False"
| "is_signed S8 = True"
| "is_signed S16 = True"
| "is_signed S32 = True"

text \<open>The value of a byte sequence read as an unsigned little-endian number (the byte
  order of the hosts the tool is built for).\<close>

fun le_val :: "u8 list \<Rightarrow> nat" where
  "le_val [] = 0"
| "le_val (b # bs) = unat b + 256 * le_val bs"

text \<open>The \<open>n\<close> low bytes of a number, little-endian: what a store into an \<open>n\<close>-byte
  integer keeps of it.\<close>

fun le_bytes :: "nat \<Rightarrow> nat \<Rightarrow> u8 list" where
  "le_bytes 0 v = []"
| "le_bytes (Suc n) v = word_of_nat v # le_bytes n (v div 256)"

definition decode :: "ctype \<Rightarrow> u8 list \<Rightarrow> int" where
  "decode ty bs =
     (let v = int (le_val bs) in
      if is_signed ty \<and> 2 ^ (8 * sizeof ty - 1) \<le> v then v - 2 ^ (8 * sizeof ty) else v)"

text \<open>Reading and writing an integer at a byte offset of a buffer.  An access that is
  not inside the buffer is undefined behaviour in C; here it is the value \<open>None\<close>.\<close>

definition load :: "u8 list \<Rightarrow> nat \<Rightarrow> ctype \<Rightarrow> int option" where
  "load buf off ty =
     (if off + sizeof ty \<le> length buf
      then Some (decode ty (take (sizeof ty) (drop off buf)))
      else None)"

definition store :: "u8 list \<Rightarrow> nat \<Rightarrow> ctype \<Rightarrow> nat \<Rightarrow> u8 list option" where
  "store buf off ty v =
     (if off + sizeof ty \<le> length buf
      then Some (take off buf @ le_bytes (sizeof ty) v @ drop (off + sizeof ty) buf)
      else None)"

text \<open>\<^verbatim>\<open>strcmp(p, lit) == 0\<close> where \<open>p\<close> points into a buffer whose remaining bytes are
  \<open>mem\<close> and \<open>lit\<close> holds the characters of the string literal (its terminating NUL is
  not in the list).  The bytes are compared one by one up to the first difference or the
  first NUL; \<open>None\<close> when the comparison runs off the buffer.\<close>

fun strcmp_eq :: "u8 list \<Rightarrow> u8 list \<Rightarrow> bool option" where
  "strcmp_eq [] lit = None"
| "strcmp_eq (b # mem) [] = Some (b = 0)"
| "strcmp_eq (b # mem) (c # lit) =
     (if b \<noteq> c then Some False
      else if c = 0 then Some True
      else strcmp_eq mem lit)"

subsection \<open>What the absent headers declare\<close>

text \<open>The layout of \<^verbatim>\<open>crc_array_t\<close> and of its element type (the type of
  \<^verbatim>\<open>ca->block[i]\<close>): the byte offset and the integer type of every field that \<^verbatim>\<open>main\<close>
  reads or writes.  \<open>str_off\<close>, \<open>mode_off\<close>, \<open>count_off\<close> and \<open>block_off\<close> are offsets in
  \<^verbatim>\<open>crc_array_t\<close>; \<open>address_off\<close>, \<open>len_off\<close> and \<open>crc_off\<close> are offsets in one element of
  \<^verbatim>\<open>block\<close>; \<open>block_pad\<close> is the padding after the last field of an element.\<close>

record crc_layout =
  str_off :: nat
  mode_off :: nat
  mode_ty :: ctype
  count_off :: nat
  count_ty :: ctype
  block_off :: nat
  address_off :: nat
  address_ty :: ctype
  len_off :: nat
  len_ty :: ctype
  crc_off :: nat
  crc_ty :: ctype
  block_pad :: nat

text \<open>\<^verbatim>\<open>sizeof(ca->block[0])\<close>: an element ends after its last field and the padding.\<close>

definition sizeof_block :: "crc_layout \<Rightarrow> nat" where
  "sizeof_block L =
     max (address_off L + sizeof (address_ty L))
       (max (len_off L + sizeof (len_ty L)) (crc_off L + sizeof (crc_ty L))) + block_pad L"

text \<open>The capability flags of \<^verbatim>\<open>pcanhw.h\<close> that \<^verbatim>\<open>main\<close> tests.\<close>

datatype hw_flag = SWITCH_TO_BOOTLOADER | END_PROGRAMMING | FDATA_INVERT | RESET_AFTER_FLASH | DATA_MODE8

text \<open>What \<^verbatim>\<open>fopen(optarg, "r")\<close> opens: the bytes that can be read from it, whether it can
  be positioned (a regular file can, a pipe cannot), and whether a read behind these
  bytes fails with an error instead of finding the end of the file (a directory, a
  failing device).  The bytes never change during the run.\<close>

record image_file =
  contents :: "u8 list"
  seekable :: bool
  io_error :: bool

text \<open>The state of the \<^verbatim>\<open>FILE\<close> stream \<^verbatim>\<open>infile\<close> that \<^verbatim>\<open>main\<close> can observe: the position and
  the end-of-file indicator.  \<^verbatim>\<open>main\<close> never tests the error indicator, so it is not
  kept.\<close>

record stream =
  pos :: nat
  eof :: bool

text \<open>\<^verbatim>\<open>struct can_frame\<close> of \<^verbatim>\<open>linux/can.h\<close>; \<open>data\<close> has the indices 0 to 7.\<close>

record can_frame =
  can_id :: u32
  can_dlc :: u8
  data :: "nat \<Rightarrow> u8"

text \<open>The constants, tables and helper results of the absent headers.  \<open>crc16\<close> is the
  16-bit checksum of a sequence of bytes, the algorithm inside \<^verbatim>\<open>calc_crc16\<close>.\<close>

record headers =
  BLKSZ :: nat
  MAX_MODULES :: nat
  MAX_MODULES_MASK :: int
  NO_MODULE_ID :: int
  NO_DATA_LEN :: u8
  DATA_LEN8 :: u8
  DATA_LEN6 :: u8
  CRC_IDENT_STRING :: "u8 list"
  crc_array_t :: crc_layout
  has_hw_flags :: "u8 \<Rightarrow> hw_flag \<Rightarrow> int"
  get_num_flashblocks :: "u8 \<Rightarrow> int"
  get_crc_startpos :: "u8 \<Rightarrow> u32"
  get_flash_offset :: "u8 \<Rightarrow> u32"
  check_flash_id_type :: "u8 \<Rightarrow> u8 \<Rightarrow> int"
  check_ch_name :: "image_file \<Rightarrow> u8 \<Rightarrow> int"
  crc16 :: "u8 list \<Rightarrow> u16"

text \<open>Modelled from the spec: the macro \<^verbatim>\<open>EMPTY\<close> of the absent \<^verbatim>\<open>pcanflash.h\<close>, "the fixed
  fill value (all bits set)"; the comment at the test of the block in \<^verbatim>\<open>main\<close> says
  \<^verbatim>\<open>EMPTY / 0xFFU\<close> too.\<close>

definition EMPTY :: u8 where
  "EMPTY = 0xFF"

definition PCF_MIN_TX_QUEUE :: int where
  "PCF_MIN_TX_QUEUE = 500"

subsection \<open>Helper calls and ways to end\<close>

text \<open>One constructor for each helper \<^verbatim>\<open>main\<close> calls that talks to the bus or waits, with
  the arguments of the call (the socket, the constant block size and the stream handle
  left out), one for \<^verbatim>\<open>calc_crc16\<close>, and \<open>Read_block foffset buf\<close> for the three calls
  \<^verbatim>\<open>fseek\<close>, \<^verbatim>\<open>memset\<close> and \<^verbatim>\<open>fread\<close> that fill \<^verbatim>\<open>buf\<close> from the offset \<open>foffset\<close> of the
  file.\<close>

datatype event =
    Query_modules
  | Get_status int
  | Get_json_config int
  | Switch_to_bootloader int
  | Sleep
  | Erase_flashblocks bool int u8 int
  | Read_block nat "u8 list"
  | Calc_crc16 int int
  | Write_block bool int int "u8 list" int u8
  | End_programming int
  | Reset_module int

text \<open>How the process ends: \<^verbatim>\<open>return\<close> from \<^verbatim>\<open>main\<close>, \<^verbatim>\<open>exit\<close>, an access outside an
  array or a use of a null stream (undefined behaviour in C).  \<open>Out_of_fuel\<close> is not an
  end: the write loop was followed for as many rounds as the fuel allows and is still
  running.\<close>

datatype outcome = Return int | Exit int | Out_of_bounds | Null_stream | Out_of_fuel

subsection \<open>The file stream\<close>

text \<open>\<^verbatim>\<open>fseek(infile, off, SEEK_SET)\<close> with an offset that is not negative.  On a file that
  can be positioned it succeeds, also behind the last byte, and clears the end-of-file
  indicator; on any other file it fails (\<open>None\<close>, a return value that is not 0) and
  leaves the stream as it is.\<close>

definition fseek :: "image_file \<Rightarrow> stream \<Rightarrow> nat \<Rightarrow> stream option" where
  "fseek file st off = (if seekable file then Some \<lparr>pos = off, eof = False\<rparr> else None)"

text \<open>\<^verbatim>\<open>fread(buf, 1, n, infile)\<close>: the bytes read, and the stream after it.  When fewer
  than \<open>n\<close> bytes can be read, the end-of-file indicator is set if the file ends there;
  if the read failed with an error, only the error indicator is set, and the end-of-file
  indicator stays as it was.\<close>

definition fread :: "image_file \<Rightarrow> stream \<Rightarrow> nat \<Rightarrow> u8 list \<times> stream" where
  "fread file st n =
     (let got = take n (drop (pos st) (contents file))
      in (got, \<lparr>pos = pos st + length got,
                eof = (eof st \<or> (length got < n \<and> \<not> io_error file))\<rparr>))"

text \<open>Modelled from the spec: the helper \<^verbatim>\<open>calc_crc16(infile, address, len)\<close> of the absent
  \<^verbatim>\<open>crc16.c\<close>, which recomputes a checksum "by reading exactly \<^verbatim>\<open>length\<close> bytes starting at
  \<^verbatim>\<open>address\<close> from the original image on disk (not the padded in-memory block), using a
  fixed 16-bit checksum algorithm".  The helper is handed the stream \<^verbatim>\<open>infile\<close> and nothing
  else of the file: it positions this stream at \<open>address\<close>, reads \<open>len\<close> bytes from it and
  returns the checksum \<open>crc16\<close> of the bytes it got (all \<open>len\<close> bytes, unless the file has
  fewer).  The two numbers are taken as unsigned 32-bit values.  The result is the
  checksum and the stream as the call leaves it.\<close>

definition calc_crc16 ::
  "headers \<Rightarrow> image_file \<Rightarrow> stream \<Rightarrow> int \<Rightarrow> int \<Rightarrow> u16 \<times> stream" where
  "calc_crc16 h file st address len =
     (case fseek file st (nat (address mod 2 ^ 32)) of
        None \<Rightarrow> (crc16 h [], st)
      | Some st1 \<Rightarrow>
          (case fread file st1 (nat (len mod 2 ^ 32)) of
             (bytes, st2) \<Rightarrow> (crc16 h bytes, st2)))"

subsection \<open>Patching the checksum table\<close>

text \<open>One round of \<^verbatim>\<open>for (i = 0; i < ca->count; i++) ca->block[i].crc =
  calc_crc16(infile, ca->block[i].address, ca->block[i].len);\<close> for the index \<open>i\<close>: the
  test and the body.  \<open>base\<close> is the index of \<^verbatim>\<open>buf\<close> that \<^verbatim>\<open>ca\<close> points to.  The result
  is \<open>Inr None\<close> when the test fails, and the buffer and the stream after the body
  otherwise.  \<^verbatim>\<open>ca->count\<close> is read again in every round.\<close>

definition patch_step ::
  "headers \<Rightarrow> image_file \<Rightarrow> nat \<Rightarrow> nat \<Rightarrow> u8 list \<times> stream \<Rightarrow>
   event list \<times> (outcome + (u8 list \<times> stream) option)" where
  "patch_step h file base i bs =
     (let L = crc_array_t h; blk = base + block_off L + i * sizeof_block L; buf = fst bs in
      case load buf (base + count_off L) (count_ty L) of
        None \<Rightarrow> ([], Inl Out_of_bounds)
      | Some count \<Rightarrow>
          if \<not> int i < count then ([], Inr None)
          else
            (case load buf (blk + address_off L) (address_ty L) of
               None \<Rightarrow> ([], Inl Out_of_bounds)
             | Some address \<Rightarrow>
                 (case load buf (blk + len_off L) (len_ty L) of
                    None \<Rightarrow> ([], Inl Out_of_bounds)
                  | Some len \<Rightarrow>
                      (case calc_crc16 h file (snd bs) address len of
                         (crc, st') \<Rightarrow>
                           (case store buf (blk + crc_off L) (crc_ty L) (unat crc) of
                              None \<Rightarrow> ([Calc_crc16 address len], Inl Out_of_bounds)
                            | Some buf' \<Rightarrow>
                                ([Calc_crc16 address len], Inr (Some (buf', st'))))))))"

text \<open>The loop from the index \<open>i\<close> on.\<close>

function patch_loop ::
  "headers \<Rightarrow> image_file \<Rightarrow> nat \<Rightarrow> nat \<Rightarrow> u8 list \<times> stream \<Rightarrow>
   event list \<times> (outcome + u8 list \<times> stream)" where
  "patch_loop h file base i bs =
     (case patch_step h file base i bs of
        (evs, Inl out) \<Rightarrow> (evs, Inl out)
      | (evs, Inr None) \<Rightarrow> (evs, Inr bs)
      | (evs, Inr (Some bs')) \<Rightarrow>
          (case patch_loop h file base (Suc i) bs' of
             (evs', r) \<Rightarrow> (evs @ evs', r)))"
  by pat_completeness auto
termination
proof (relation "measure (\<lambda>(h, img, base, i, bs).
    length (fst bs) - i * sizeof_block (crc_array_t h))")
  show "wf (measure (\<lambda>(h, img, base, i, bs).
    length (fst bs) - i * sizeof_block (crc_array_t h)))"
    by simp
next
  fix h :: headers and img :: image_file and base i :: nat and bs bs' :: "u8 list \<times> stream"
    and evs r ob
  assume "(evs, r) = patch_step h img base i bs" and "r = Inr ob" and "ob = Some bs'"
  then have step: "patch_step h img base i bs = (evs, Inr (Some bs'))"
    by simp
  define L where "L = crc_array_t h"
  define blk where "blk = base + block_off L + i * sizeof_block L"
  from step obtain v where st: "store (fst bs) (blk + crc_off L) (crc_ty L) v = Some (fst bs')"
    unfolding patch_step_def L_def blk_def
    by (auto simp: Let_def split: option.splits if_splits prod.splits)
  have s0: "0 < sizeof (crc_ty L)"
    by (cases "crc_ty L") simp_all
  have fits: "blk + crc_off L + sizeof (crc_ty L) \<le> length (fst bs)"
    using st by (simp add: store_def split: if_splits)
  have lb: "length (le_bytes n x) = n" for n x
    by (induction n arbitrary: x) simp_all
  have "fst bs' = take (blk + crc_off L) (fst bs) @ le_bytes (sizeof (crc_ty L)) v
      @ drop (blk + crc_off L + sizeof (crc_ty L)) (fst bs)"
    using st by (simp add: store_def split: if_splits)
  then have len: "length (fst bs') = length (fst bs)"
    using fits by (simp add: lb)
  have pos: "0 < sizeof_block L"
    using s0 unfolding sizeof_block_def by linarith
  have "i * sizeof_block L < length (fst bs)"
    using fits s0 blk_def by simp
  then have "length (fst bs') - Suc i * sizeof_block L < length (fst bs) - i * sizeof_block L"
    using len pos by simp
  then show "((h, img, base, Suc i, bs'), (h, img, base, i, bs))
      \<in> measure (\<lambda>(h, img, base, i, bs). length (fst bs) - i * sizeof_block (crc_array_t h))"
    using L_def by simp
qed

text \<open>The body of \<^verbatim>\<open>if ((crc_start) && ...)\<close>: \<^verbatim>\<open>ca\<close> points to index \<open>base\<close> of \<^verbatim>\<open>buf\<close>.
  The fields that are only printed (version and date) are not read here.\<close>

definition patch_crc_array ::
  "headers \<Rightarrow> image_file \<Rightarrow> nat \<Rightarrow> u8 list \<times> stream \<Rightarrow>
   event list \<times> (outcome + u8 list \<times> stream)" where
  "patch_crc_array h file base bs =
     (let L = crc_array_t h in
      case strcmp_eq (drop (base + str_off L) (fst bs)) (CRC_IDENT_STRING h) of
        None \<Rightarrow> ([], Inl Out_of_bounds)
      | Some False \<Rightarrow> ([], Inr bs)
      | Some True \<Rightarrow>
          (case load (fst bs) (base + mode_off L) (mode_ty L) of
             None \<Rightarrow> ([], Inl Out_of_bounds)
           | Some mode \<Rightarrow>
               if mode = 1 \<or> mode = 3 \<or> mode = 4 then patch_loop h file base 0 bs
               else ([], Inr bs)))"

subsection \<open>The variables of \<^verbatim>\<open>main\<close>\<close>

text \<open>\<open>infile\<close> is \<open>None\<close> for the null pointer and the opened file otherwise.  The flags \<open>query\<close>, \<open>do_reset\<close> and \<open>dry_run\<close> are only ever set to 1 and
  tested, so they are booleans here.\<close>

record locals =
  infile :: "image_file option"
  query :: bool
  do_reset :: bool
  dry_run :: bool
  module_id :: int
  modules :: "can_frame list"
  entries :: int
  hw_type :: u8
  alternating_xor_flip :: int
  crc_start :: u32
  floffset :: u32

text \<open>\<^verbatim>\<open>modules[module_id]\<close>, used only after the index was found to be inside the array.\<close>

definition the_module :: "locals \<Rightarrow> can_frame" where
  "the_module v = modules v ! nat (module_id v)"

subsection \<open>The write phase\<close>

text \<open>The value of \<open>i\<close> after \<^verbatim>\<open>for (i = 0; i < BLKSZ; i++) if (buf[i] != EMPTY) break;\<close>\<close>

definition first_nonempty :: "nat \<Rightarrow> u8 list \<Rightarrow> nat" where
  "first_nonempty n buf = length (takeWhile (\<lambda>b. b = EMPTY) (take n buf))"

text \<open>\<^verbatim>\<open>memset(&buf, 0xFF, sizeof(buf)); fread(buf, 1, BLKSZ, infile);\<close> for the \<open>BLKSZ + 2\<close>
  bytes of \<^verbatim>\<open>buf\<close>.\<close>

definition read_block :: "headers \<Rightarrow> image_file \<Rightarrow> stream \<Rightarrow> u8 list \<times> stream" where
  "read_block h file st =
     (case fread file st (BLKSZ h) of
        (got, st') \<Rightarrow> (got @ replicate (BLKSZ h + 2 - length got) 0xFF, st'))"

text \<open>How one round of \<^verbatim>\<open>while (1)\<close> ends before the test of \<^verbatim>\<open>feof\<close>: the process is
  over, the loop is left at \<^verbatim>\<open>fseek\<close>, or the round is done with the stream as given.\<close>

datatype round = Abort outcome | Break | Done stream

definition write_round ::
  "headers \<Rightarrow> locals \<Rightarrow> image_file \<Rightarrow> stream \<Rightarrow> nat \<Rightarrow> event list \<times> round" where
  "write_round h v file st foffset =
     (case fseek file st foffset of
        None \<Rightarrow> ([], Break)
      | Some st1 \<Rightarrow>
          (case read_block h file st1 of
             (buf, st2) \<Rightarrow>
               if first_nonempty (BLKSZ h) buf \<noteq> BLKSZ h then
                 (case
                    (if crc_start v \<noteq> 0 \<and> foffset \<le> unat (crc_start v)
                        \<and> unat (crc_start v) < foffset + BLKSZ h
                     then patch_crc_array h file (unat (crc_start v) - foffset) (buf, st2)
                     else ([], Inr (buf, st2)))
                  of
                    (evs, Inl out) \<Rightarrow> (Read_block foffset buf # evs, Abort out)
                  | (evs, Inr (buf', st3)) \<Rightarrow>
                      (Read_block foffset buf # evs @
                         [Write_block (dry_run v) (module_id v)
                            (int foffset + uint (floffset v)) buf'
                            (alternating_xor_flip v) (can_dlc (the_module v))],
                       Done st3))
               else ([Read_block foffset buf], Done st2)))"

text \<open>The loop \<^verbatim>\<open>while (1)\<close> from the offset \<open>foffset\<close> on, followed for at most \<open>fuel\<close>
  rounds.  The second component is \<open>None\<close> when the loop is left and \<^verbatim>\<open>main\<close> goes on,
  and \<open>Some Out_of_fuel\<close> when the loop is still running after \<open>fuel\<close> rounds; the first
  component holds the calls of the rounds that were followed.  A loop that never ends
  gives \<open>Some Out_of_fuel\<close> for every fuel.\<close>

fun write_loop ::
  "nat \<Rightarrow> headers \<Rightarrow> locals \<Rightarrow> image_file \<Rightarrow> stream \<Rightarrow> nat \<Rightarrow> event list \<times> outcome option" where
  "write_loop 0 h v file st foffset = ([], Some Out_of_fuel)"
| "write_loop (Suc fuel) h v file st foffset =
     (case write_round h v file st foffset of
        (evs, Abort out) \<Rightarrow> (evs, Some out)
      | (evs, Break) \<Rightarrow> (evs, None)
      | (evs, Done st') \<Rightarrow>
          if eof st' then (evs, None)
          else
            (case write_loop fuel h v file st' (foffset + BLKSZ h) of
               (evs', r) \<Rightarrow> (evs @ evs', r)))"

subsection \<open>The command line and the outside world\<close>

text \<open>One option as \<^verbatim>\<open>getopt\<close> hands it to the \<^verbatim>\<open>switch\<close>.  \<open>Opt_i n\<close> carries the number
  \<^verbatim>\<open>strtoul\<close> returns for the argument; \<open>Opt_other\<close> is \<^verbatim>\<open>-?\<close> or an option that
  \<^verbatim>\<open>getopt\<close> does not know.\<close>

datatype option_arg = Opt_f string | Opt_i nat | Opt_q | Opt_r | Opt_d | Opt_other

text \<open>The answers of libc, the kernel and the bus helpers of \<^verbatim>\<open>pcanfunc.h\<close> during one
  run: the files that can be opened, the return values of \<^verbatim>\<open>socket\<close>, of the two
  \<^verbatim>\<open>ioctl\<close> calls and of \<^verbatim>\<open>bind\<close>, the queue length the kernel reports, what
  \<^verbatim>\<open>query_modules\<close> returns and leaves in each slot of \<^verbatim>\<open>modules\<close>, the frame \<^verbatim>\<open>get_status\<close>
  stores for a module, what \<^verbatim>\<open>get_json_config\<close> returns and leaves in its two frames, and
  the number \<^verbatim>\<open>scanf\<close> converts (\<open>None\<close> when it converts nothing).\<close>

record world =
  fopen :: "string \<Rightarrow> image_file option"
  socket_rc :: int
  txqlen_rc :: int
  ifr_qlen :: int
  ifindex_rc :: int
  bind_rc :: int
  query_modules_rc :: int
  query_modules_slot :: "nat \<Rightarrow> can_frame"
  get_status_reply :: "int \<Rightarrow> can_frame"
  get_json_config :: "int \<Rightarrow> can_frame \<Rightarrow> can_frame \<Rightarrow> int \<times> can_frame \<times> can_frame"
  scanf_d :: "int option"

text \<open>The conversion of the \<^verbatim>\<open>unsigned long\<close> of \<^verbatim>\<open>strtoul\<close> to the \<^verbatim>\<open>int\<close> \<^verbatim>\<open>module_id\<close>:
  the low 32 bits, read as two's complement.\<close>

definition int_of_ulong :: "nat \<Rightarrow> int" where
  "int_of_ulong n = sint (word_of_nat n :: 32 word)"

text \<open>The loop \<^verbatim>\<open>while ((opt = getopt(...)) != -1)\<close>.\<close>

fun parse_options :: "world \<Rightarrow> locals \<Rightarrow> option_arg list \<Rightarrow> outcome + locals" where
  "parse_options w v [] = Inr v"
| "parse_options w v (Opt_f path # os) =
     (case fopen w path of
        None \<Rightarrow> Inl (Return 1)
      | Some file \<Rightarrow> parse_options w (v\<lparr>infile := Some file\<rparr>) os)"
| "parse_options w v (Opt_i n # os) = parse_options w (v\<lparr>module_id := int_of_ulong n\<rparr>) os"
| "parse_options w v (Opt_q # os) = parse_options w (v\<lparr>query := True\<rparr>) os"
| "parse_options w v (Opt_r # os) = parse_options w (v\<lparr>do_reset := True\<rparr>) os"
| "parse_options w v (Opt_d # os) = parse_options w (v\<lparr>dry_run := True\<rparr>) os"
| "parse_options w v (Opt_other # os) = Inl (Return 1)"

text \<open>The variables of \<^verbatim>\<open>main\<close> before the first option is read.  The variables that
  are written before they are read start with 0 here.\<close>

definition initial_locals :: "headers \<Rightarrow> locals" where
  "initial_locals h =
     \<lparr>infile = None, query = False, do_reset = False, dry_run = False,
      module_id = NO_MODULE_ID h, modules = [], entries = 0, hw_type = 0,
      alternating_xor_flip = 0, crc_start = 0, floffset = 0\<rparr>"

text \<open>The test before the usage message: \<open>nargs\<close> is \<^verbatim>\<open>argc - optind\<close>.\<close>

definition bad_usage :: "locals \<Rightarrow> nat \<Rightarrow> bool" where
  "bad_usage v nargs \<longleftrightarrow>
     nargs \<noteq> 1 \<or> (infile v \<noteq> None \<and> query v) \<or> \<not> (infile v \<noteq> None \<or> query v)"

text \<open>From \<^verbatim>\<open>socket\<close> to \<^verbatim>\<open>bind\<close>: \<open>Some r\<close> when \<^verbatim>\<open>main\<close> returns \<open>r\<close> there.\<close>

definition open_transport :: "world \<Rightarrow> outcome option" where
  "open_transport w =
     (if socket_rc w < 0 then Some (Return 1)
      else if txqlen_rc w < 0 then Some (Return 1)
      else if ifr_qlen w < PCF_MIN_TX_QUEUE then Some (Return 1)
      else if ifindex_rc w < 0 then Some (Return 1)
      else if bind_rc w < 0 then Some (Return 1)
      else None)"

subsection \<open>Discovery\<close>

text \<open>The body of the loop that prints the module list, for slot \<open>i\<close> holding \<open>m\<close>.\<close>

definition discover_module ::
  "headers \<Rightarrow> world \<Rightarrow> nat \<Rightarrow> can_frame \<Rightarrow> event list \<times> (outcome + can_frame)" where
  "discover_module h w i m =
     (if can_id m \<noteq> 0 then
        (let cf = get_status_reply w (int i) in
         case
           (if data cf 3 = 250 \<or> data cf 4 = 250 then
              (case get_json_config w (int i) m cf of
                 (rc, m', cf') \<Rightarrow>
                   ([Get_status (int i), Get_json_config (int i)],
                    if rc \<noteq> 0 then Inl (Exit 1) else Inr (m', cf')))
            else ([Get_status (int i)], Inr (m, cf)))
         of
           (evs, Inl out) \<Rightarrow> (evs, Inl out)
         | (evs, Inr (m1, cf1)) \<Rightarrow>
             if check_flash_id_type h (data cf1 3) (data cf1 4) \<noteq> 0 then (evs, Inl (Exit 1))
             else (evs, Inr (m1\<lparr>data := (data m1)(7 := data cf1 3)\<rparr>)))
      else ([], Inr m))"

text \<open>\<^verbatim>\<open>for (i = 0; i < MAX_MODULES; i++)\<close> over the slots from \<open>i\<close> on; the result is the
  array as the loop leaves it.\<close>

fun discover_loop ::
  "headers \<Rightarrow> world \<Rightarrow> nat \<Rightarrow> can_frame list \<Rightarrow> event list \<times> (outcome + can_frame list)" where
  "discover_loop h w i [] = ([], Inr [])"
| "discover_loop h w i (m # ms) =
     (case discover_module h w i m of
        (evs, Inl out) \<Rightarrow> (evs, Inl out)
      | (evs, Inr m') \<Rightarrow>
          (case discover_loop h w (Suc i) ms of
             (evs', Inl out) \<Rightarrow> (evs @ evs', Inl out)
           | (evs', Inr ms') \<Rightarrow> (evs @ evs', Inr (m' # ms'))))"

subsection \<open>Choosing the module\<close>

text \<open>\<^verbatim>\<open>for (i = 0; i < MAX_MODULES; i++) if (modules[i].can_id) { module_id = i; break; }\<close>
  over the slots from \<open>i\<close> on.\<close>

fun first_found :: "can_frame list \<Rightarrow> nat \<Rightarrow> nat option" where
  "first_found [] i = None"
| "first_found (m # ms) i = (if can_id m \<noteq> 0 then Some i else first_found ms (Suc i))"

definition select_module :: "headers \<Rightarrow> world \<Rightarrow> locals \<Rightarrow> locals" where
  "select_module h w v =
     (if module_id v = NO_MODULE_ID h then
        (if entries v = 1 then
           (case first_found (modules v) 0 of
              Some i \<Rightarrow> v\<lparr>module_id := int i\<rparr>
            | None \<Rightarrow> v)
         else
           v\<lparr>module_id :=
               (case scanf_d w of Some x \<Rightarrow> x | None \<Rightarrow> module_id v) AND MAX_MODULES_MASK h\<rparr>)
      else v)"

subsection \<open>Flashing\<close>

definition switch_phase :: "headers \<Rightarrow> locals \<Rightarrow> event list" where
  "switch_phase h v =
     (if has_hw_flags h (hw_type v) SWITCH_TO_BOOTLOADER \<noteq> 0
      then [Switch_to_bootloader (module_id v), Sleep, Get_status (module_id v)]
      else [])"

text \<open>\<^verbatim>\<open>for (i = 0; i < entries; i++) erase_flashblocks(...)\<close>\<close>

definition erase_phase :: "locals \<Rightarrow> event list" where
  "erase_phase v =
     map (\<lambda>i. Erase_flashblocks (dry_run v) (module_id v) (hw_type v) i) [0..entries v - 1]"

definition end_phase :: "headers \<Rightarrow> locals \<Rightarrow> event list" where
  "end_phase h v =
     (if has_hw_flags h (hw_type v) END_PROGRAMMING \<noteq> 0
      then [End_programming (module_id v), Sleep, Get_status (module_id v)]
      else [])"

definition reset_phase :: "headers \<Rightarrow> locals \<Rightarrow> event list" where
  "reset_phase h v =
     (if has_hw_flags h (hw_type v) RESET_AFTER_FLASH \<noteq> 0 \<or> do_reset v then
        [Reset_module (module_id v), Sleep] @
        (if has_hw_flags h (hw_type v) RESET_AFTER_FLASH \<noteq> 0 then [Get_status (module_id v)]
         else [])
      else [])"

text \<open>\<^verbatim>\<open>if (modules[module_id].can_dlc == NO_DATA_LEN) ...\<close>: the default transfer length.\<close>

definition default_dlc :: "headers \<Rightarrow> locals \<Rightarrow> locals" where
  "default_dlc h v =
     (if can_dlc (the_module v) = NO_DATA_LEN h then
        v\<lparr>modules := (modules v)[nat (module_id v) :=
             (the_module v)\<lparr>can_dlc :=
                (if has_hw_flags h (hw_type v) DATA_MODE8 \<noteq> 0 then DATA_LEN8 h
                 else DATA_LEN6 h)\<rparr>]\<rparr>
      else v)"

text \<open>The three assignments before \<^verbatim>\<open>while (1)\<close>.\<close>

definition write_setup :: "headers \<Rightarrow> locals \<Rightarrow> locals" where
  "write_setup h v =
     v\<lparr>alternating_xor_flip := has_hw_flags h (hw_type v) FDATA_INVERT,
       crc_start := get_crc_startpos h (hw_type v),
       floffset := get_flash_offset h (hw_type v)\<rparr>"

text \<open>From the test of \<^verbatim>\<open>modules[module_id].can_id\<close> to the end of \<^verbatim>\<open>main\<close>, with \<open>fuel\<close>
  for the write loop.  The loop starts with \<^verbatim>\<open>fseek\<close>, which sets the position and
  clears the end-of-file indicator or ends the loop, so the stream it is entered with is
  of no account.\<close>

definition flash :: "nat \<Rightarrow> headers \<Rightarrow> locals \<Rightarrow> event list \<times> outcome" where
  "flash fuel h v0 =
     (if \<not> (0 \<le> module_id v0 \<and> module_id v0 < int (MAX_MODULES h)) then ([], Out_of_bounds)
      else if can_id (the_module v0) = 0 then ([], Exit 1)
      else
        (let v1 = v0\<lparr>hw_type := data (the_module v0) 7\<rparr> in
         case infile v1 of
           None \<Rightarrow> ([], Null_stream)
         | Some file \<Rightarrow>
             if check_ch_name h file (hw_type v1) \<noteq> 0 then ([], Exit 1)
             else
               (let v2 = default_dlc h v1;
                    v3 = v2\<lparr>entries := get_num_flashblocks h (hw_type v2)\<rparr>
                in
                  if entries v3 = 0 then (switch_phase h v2, Exit 1)
                  else
                    (let v4 = write_setup h v3 in
                     case write_loop fuel h v4 file \<lparr>pos = 0, eof = False\<rparr> 0 of
                       (wr, Some out) \<Rightarrow> (switch_phase h v2 @ erase_phase v3 @ wr, out)
                     | (wr, None) \<Rightarrow>
                         (switch_phase h v2 @ erase_phase v3 @ wr @ end_phase h v4
                            @ reset_phase h v4,
                          Return 0)))))"

text \<open>The variables as the write loop and the last two phases find them.\<close>

definition flash_locals :: "headers \<Rightarrow> locals \<Rightarrow> locals" where
  "flash_locals h v0 =
     (let v2 = default_dlc h (v0\<lparr>hw_type := data (the_module v0) 7\<rparr>)
      in write_setup h (v2\<lparr>entries := get_num_flashblocks h (hw_type v2)\<rparr>))"

subsection \<open>\<^verbatim>\<open>main\<close>\<close>

text \<open>From \<^verbatim>\<open>query_modules\<close> on: the bus is used from here.\<close>

definition session :: "nat \<Rightarrow> headers \<Rightarrow> world \<Rightarrow> locals \<Rightarrow> event list \<times> outcome" where
  "session fuel h w v0 =
     (let v1 = v0\<lparr>entries := query_modules_rc w,
                  modules := map (query_modules_slot w) [0..<MAX_MODULES h]\<rparr>
      in
        if entries v1 = 0 then ([Query_modules], Return 1)
        else
          (case discover_loop h w 0 (modules v1) of
             (evs, Inl out) \<Rightarrow> (Query_modules # evs, out)
           | (evs, Inr ms) \<Rightarrow>
               if query v1 then (Query_modules # evs, Return 0)
               else
                 (case flash fuel h (select_module h w (v1\<lparr>modules := ms\<rparr>)) of
                    (evs', out) \<Rightarrow> (Query_modules # evs @ evs', out))))"

text \<open>\<open>opts\<close> are the options in the order of the command line, \<open>nargs\<close> is the number
  of arguments that are left after them, \<open>fuel\<close> bounds the rounds of the write loop.
  The result is the list of helper calls in the order they are made and the way the
  process ends.\<close>

definition main ::
  "nat \<Rightarrow> headers \<Rightarrow> world \<Rightarrow> option_arg list \<Rightarrow> nat \<Rightarrow> event list \<times> outcome" where
  "main fuel h w opts nargs =
     (case parse_options w (initial_locals h) opts of
        Inl out \<Rightarrow> ([], out)
      | Inr v \<Rightarrow>
          if bad_usage v nargs then ([], Return 0)
          else
            (case open_transport w of
               Some out \<Rightarrow> ([], out)
             | None \<Rightarrow> session fuel h w v))"

subsection \<open>Reading a trace\<close>

text \<open>The kinds of helper calls, for statements about a list of calls.\<close>

fun write_phase_event :: "event \<Rightarrow> bool" where
  "write_phase_event (Read_block off buf) = True"
| "write_phase_event (Calc_crc16 a l) = True"
| "write_phase_event (Write_block d m a buf f dlc) = True"
| "write_phase_event e = False"

fun is_calc :: "event \<Rightarrow> bool" where
  "is_calc (Calc_crc16 a l) = True"
| "is_calc e = False"

fun is_read :: "event \<Rightarrow> bool" where
  "is_read (Read_block off buf) = True"
| "is_read e = False"

fun is_write :: "event \<Rightarrow> bool" where
  "is_write (Write_block d m a buf f dlc) = True"
| "is_write e = False"

fun is_reset :: "event \<Rightarrow> bool" where
  "is_reset (Reset_module m) = True"
| "is_reset e = False"

text \<open>The flash address of a write call.\<close>

fun write_address :: "event \<Rightarrow> int" where
  "write_address (Write_block d m a buf f dlc) = a"
| "write_address e = 0"

text \<open>The block of an image at an offset, as the specification words it: the \<open>B\<close> bytes
  from the offset on, the bytes that the image does not have filled with 0xFF (and the
  two spare bytes of \<^verbatim>\<open>buf\<close>, which hold 0xFF as well).\<close>

definition padded_block :: "nat \<Rightarrow> u8 list \<Rightarrow> nat \<Rightarrow> u8 list" where
  "padded_block B img off =
     take B (drop off img) @ replicate (B + 2 - length (take B (drop off img))) 0xFF"

text \<open>A block that consists of the empty sentinel byte only.\<close>

definition block_empty :: "nat \<Rightarrow> u8 list \<Rightarrow> bool" where
  "block_empty B buf \<longleftrightarrow> (\<forall>b\<in>set (take B buf). b = 0xFF)"

subsection \<open>Reading a checksum table\<close>

text \<open>The value of the integer at a byte offset of a buffer: what \<open>load\<close> returns when
  the integer is inside the buffer.\<close>

definition peek :: "u8 list \<Rightarrow> nat \<Rightarrow> ctype \<Rightarrow> int" where
  "peek buf p ty = decode ty (take (sizeof ty) (drop p buf))"

text \<open>The index in \<^verbatim>\<open>buf\<close> of the sub-range \<^verbatim>\<open>ca->block[i]\<close>, for \<^verbatim>\<open>ca\<close> at index \<open>base\<close>.\<close>

definition block_pos :: "crc_layout \<Rightarrow> nat \<Rightarrow> nat \<Rightarrow> nat" where
  "block_pos L base i = base + block_off L + i * sizeof_block L"

text \<open>What every C structure of this shape has: the field \<^verbatim>\<open>count\<close> lies before the
  array \<^verbatim>\<open>block\<close>, and in an element the field \<^verbatim>\<open>crc\<close> overlaps neither \<^verbatim>\<open>address\<close> nor
  \<^verbatim>\<open>len\<close>.\<close>

definition wf_layout :: "crc_layout \<Rightarrow> bool" where
  "wf_layout L \<longleftrightarrow>
     count_off L + sizeof (count_ty L) \<le> block_off L
     \<and> (address_off L + sizeof (address_ty L) \<le> crc_off L
          \<or> crc_off L + sizeof (crc_ty L) \<le> address_off L)
     \<and> (len_off L + sizeof (len_ty L) \<le> crc_off L
          \<or> crc_off L + sizeof (crc_ty L) \<le> len_off L)"

text \<open>The identification string matches exactly: the bytes at \<^verbatim>\<open>ca->str\<close> are the
  characters of \<^verbatim>\<open>CRC_IDENT_STRING\<close>, followed by NUL.\<close>

definition ident_matches :: "headers \<Rightarrow> u8 list \<Rightarrow> nat \<Rightarrow> bool" where
  "ident_matches h buf base \<longleftrightarrow>
     take (Suc (length (CRC_IDENT_STRING h))) (drop (base + str_off (crc_array_t h)) buf)
       = CRC_IDENT_STRING h @ [0]"

text \<open>The mode of the table is one of 1, 3 and 4.\<close>

definition mode_supported :: "headers \<Rightarrow> u8 list \<Rightarrow> nat \<Rightarrow> bool" where
  "mode_supported h buf base \<longleftrightarrow>
     peek buf (base + mode_off (crc_array_t h)) (mode_ty (crc_array_t h)) \<in> {1, 3, 4}"

subsection \<open>A concrete configuration\<close>

text \<open>Values for the absent headers and for the outside world, used where a theorem is
  applied to a concrete run.  The checksum of this configuration is the sum of the
  bytes.  Hardware type 1 has every capability flag and a checksum table at offset 32;
  type 2 has only the bootloader switch and the end-of-programming flag; type 3 has no
  flag.\<close>

definition demo_layout :: crc_layout where
  "demo_layout =
     \<lparr>str_off = 0, mode_off = 4, mode_ty = U8, count_off = 5, count_ty = U8, block_off = 8,
      address_off = 0, address_ty = U32, len_off = 4, len_ty = U32, crc_off = 8, crc_ty = U16,
      block_pad = 2\<rparr>"

definition demo_sum16 :: "u8 list \<Rightarrow> u16" where
  "demo_sum16 bytes = word_of_nat (sum_list (map unat bytes))"

definition demo_flags :: "u8 \<Rightarrow> hw_flag \<Rightarrow> int" where
  "demo_flags hw f =
     (if hw = 1 then 1
      else if hw = 2 \<and> (f = SWITCH_TO_BOOTLOADER \<or> f = END_PROGRAMMING) then 1
      else 0)"

definition demo_headers :: headers where
  "demo_headers =
     \<lparr>BLKSZ = 32, MAX_MODULES = 32, MAX_MODULES_MASK = 31, NO_MODULE_ID = - 1,
      NO_DATA_LEN = 0, DATA_LEN8 = 8, DATA_LEN6 = 6,
      CRC_IDENT_STRING = [0x43, 0x52, 0x43],
      crc_array_t = demo_layout,
      has_hw_flags = demo_flags,
      get_num_flashblocks = (\<lambda>hw. 3),
      get_crc_startpos = (\<lambda>hw. if hw = 1 then 32 else 0),
      get_flash_offset = (\<lambda>hw. 0x1000),
      check_flash_id_type = (\<lambda>hw fl. if hw = fl then 0 else 1),
      check_ch_name = (\<lambda>file hw. 0),
      crc16 = demo_sum16\<rparr>"

text \<open>A regular file, a pipe, and a directory (which \<^verbatim>\<open>fopen\<close> opens for reading, and
  whose every read fails).\<close>

definition regular_file :: "u8 list \<Rightarrow> image_file" where
  "regular_file bytes = \<lparr>contents = bytes, seekable = True, io_error = False\<rparr>"

definition pipe :: "u8 list \<Rightarrow> image_file" where
  "pipe bytes = \<lparr>contents = bytes, seekable = False, io_error = False\<rparr>"

definition directory :: image_file where
  "directory = \<lparr>contents = [], seekable = True, io_error = True\<rparr>"

text \<open>A checksum table in the layout above: the identification string, the mode, the
  count, and the sub-ranges, each with address, length and a stale checksum.\<close>

definition table_bytes :: "nat \<Rightarrow> nat \<Rightarrow> (nat \<times> nat) list \<Rightarrow> u8 list" where
  "table_bytes mode count ranges =
     [0x43, 0x52, 0x43, 0, word_of_nat mode, word_of_nat count, 0, 0]
       @ concat (map (\<lambda>(a, l). le_bytes 4 a @ le_bytes 4 l @ [0xAA, 0xBB, 0, 0]) ranges)"

text \<open>The table with mode 1 and the two sub-ranges (address 0, length 4) and
  (address 32, length 3).\<close>

definition demo_table :: "u8 list" where
  "demo_table = table_bytes 1 2 [(0, 4), (32, 3)]"

text \<open>An image of 67 bytes: a first block with four bytes of content, the table as
  second block, and a short third block.\<close>

definition demo_image :: "u8 list" where
  "demo_image = [0xF1, 0xF2, 0xF3, 0xF4] @ replicate 28 0xFF @ demo_table @ [7, 8, 9]"

text \<open>An image of three blocks whose second block is empty.\<close>

definition sparse_image :: "u8 list" where
  "sparse_image = [0xF1, 0xF2, 0xF3, 0xF4] @ replicate 28 0xFF @ replicate 32 0xFF @ [7, 8, 9]"

text \<open>An image that starts with the checksum table.\<close>

definition table_first_image :: "u8 list" where
  "table_first_image = demo_table @ [7, 8, 9]"

text \<open>An image of 52 bytes whose last, short block is a table with one sub-range.\<close>

definition short_table_image :: "u8 list" where
  "short_table_image =
     [0xF1, 0xF2, 0xF3, 0xF4] @ replicate 28 0xFF @ table_bytes 1 1 [(0, 4)]"

text \<open>The image of 67 bytes with a table whose second sub-range (address 32, length
  258) reaches behind the last byte of the file.\<close>

definition long_range_image :: "u8 list" where
  "long_range_image =
     [0xF1, 0xF2, 0xF3, 0xF4] @ replicate 28 0xFF @ table_bytes 1 2 [(0, 4), (32, 258)]
       @ [7, 8, 9]"

text \<open>The image of 67 bytes with a table that declares three sub-ranges: the first two
  are in the block of the table, the third is where the next block of the file starts.\<close>

definition count3_image :: "u8 list" where
  "count3_image =
     [0xF1, 0xF2, 0xF3, 0xF4] @ replicate 28 0xFF @ table_bytes 1 3 [(0, 4), (32, 3)]
       @ [7, 8, 9]"

text \<open>The image of the concrete configuration with mode 2 in its table.\<close>

definition mode2_image :: "u8 list" where
  "mode2_image =
     [0xF1, 0xF2, 0xF3, 0xF4] @ replicate 28 0xFF @ table_bytes 2 2 [(0, 4), (32, 3)]
       @ [7, 8, 9]"

definition demo_frame :: "u32 \<Rightarrow> u8 \<Rightarrow> can_frame" where
  "demo_frame cid hw =
     \<lparr>can_id = cid, can_dlc = 0,
      data = (\<lambda>k. if k = 3 \<or> k = 4 \<or> k = 7 then hw else 0)\<rparr>"

text \<open>A world with a sound transport and one module, of hardware type 1, in slot 5;
  every path opens the given file.\<close>

definition world_with :: "image_file \<Rightarrow> world" where
  "world_with file =
     \<lparr>fopen = (\<lambda>path. Some file),
      socket_rc = 3, txqlen_rc = 0, ifr_qlen = 1000, ifindex_rc = 0, bind_rc = 0,
      query_modules_rc = 1,
      query_modules_slot = (\<lambda>i. if i = 5 then demo_frame 0x7E7 0 else demo_frame 0 0),
      get_status_reply = (\<lambda>i. demo_frame 0x7E7 1),
      get_json_config = (\<lambda>i m cf. (0, m, cf)),
      scanf_d = None\<rparr>"

text \<open>The same world where only \<^verbatim>\<open>fw.bin\<close> can be opened, the image above.\<close>

definition demo_world :: world where
  "demo_world =
     (world_with (regular_file demo_image))
       \<lparr>fopen := (\<lambda>path. if path = ''fw.bin'' then Some (regular_file demo_image) else None)\<rparr>"

text \<open>A world with modules in the slots 3 and 5, where the user answers the prompt
  with 3.\<close>

definition two_modules_world :: world where
  "two_modules_world =
     demo_world\<lparr>query_modules_rc := 2,
       query_modules_slot := (\<lambda>i. if i = 3 \<or> i = 5 then demo_frame 0x7E7 0 else demo_frame 0 0),
       scanf_d := Some 3\<rparr>"

text \<open>The variables of \<^verbatim>\<open>main\<close> after discovery and selection in a run on the image
  above: the module in slot 5, of hardware type 1.\<close>

definition demo_locals :: locals where
  "demo_locals =
     \<lparr>infile = Some (regular_file demo_image), query = False, do_reset = False,
      dry_run = False, module_id = 5,
      modules = map (\<lambda>i. if i = 5 then demo_frame 0x7E7 1 else demo_frame 0 0) [0..<32],
      entries = 1, hw_type = 0, alternating_xor_flip = 0, crc_start = 0, floffset = 0\<rparr>"

text \<open>The same with a module of hardware type 2 and the option \<^verbatim>\<open>-r\<close>.\<close>

definition demo_locals2 :: locals where
  "demo_locals2 =
     demo_locals\<lparr>do_reset := True,
       modules := map (\<lambda>i. if i = 5 then demo_frame 0x7E7 2 else demo_frame 0 0) [0..<32]\<rparr>"

section \<open>Properties\<close>

subsection \<open>Invocation and transport\<close>

text \<open>C8.  An invocation without a firmware image and without the query option is
  expected to end with a status that differs from success.  It does not: with no option
  and one interface argument \<^verbatim>\<open>main\<close> prints the usage message and returns 0, the status
  of a completed session, while the usage message after \<^verbatim>\<open>-?\<close> comes with status 1.\<close>

theorem usage_error_returns_success:
  "main fuel h w [] 1 = ([], Return 0) \<and> main fuel h w [Opt_other] 1 = ([], Return 1)"
  by (simp add: main_def initial_locals_def bad_usage_def)

text \<open>C6, as the code has it.  No helper is called unless \<^verbatim>\<open>socket\<close>, both \<^verbatim>\<open>ioctl\<close>
  calls and \<^verbatim>\<open>bind\<close> succeeded and the transmit queue holds at least 500 frames; and when
  the options and the usage test are passed and one of these conditions fails, the
  process returns 1 without any helper call.\<close>

theorem transport_checked_before_bus:
  "(fst (main fuel h w opts nargs) \<noteq> [] \<longrightarrow>
      0 \<le> socket_rc w \<and> 0 \<le> txqlen_rc w \<and> 500 \<le> ifr_qlen w
      \<and> 0 \<le> ifindex_rc w \<and> 0 \<le> bind_rc w)
   \<and> (parse_options w (initial_locals h) opts = Inr v \<and> \<not> bad_usage v nargs
        \<and> (socket_rc w < 0 \<or> txqlen_rc w < 0 \<or> ifr_qlen w < 500
             \<or> ifindex_rc w < 0 \<or> bind_rc w < 0)
      \<longrightarrow> main fuel h w opts nargs = ([], Return 1))"
  by (auto simp: main_def open_transport_def PCF_MIN_TX_QUEUE_def
      split: sum.splits option.splits if_splits)

theorem transport_checked_before_bus_witness:
  "fst (main 10 demo_headers demo_world [Opt_q] 1) \<noteq> []
   \<and> 500 \<le> ifr_qlen demo_world
   \<and> main 10 demo_headers (demo_world\<lparr>ifr_qlen := 499\<rparr>) [Opt_q] 1 = ([], Return 1)"
proof -
  have a: "fst (main 10 demo_headers demo_world [Opt_q] 1) \<noteq> []"
    by code_simp
  have b: "parse_options (demo_world\<lparr>ifr_qlen := 499\<rparr>) (initial_locals demo_headers) [Opt_q]
      = Inr ((initial_locals demo_headers)\<lparr>query := True\<rparr>)"
    by simp
  have c: "\<not> bad_usage ((initial_locals demo_headers)\<lparr>query := True\<rparr>) 1"
    by (simp add: bad_usage_def initial_locals_def)
  have d: "ifr_qlen (demo_world\<lparr>ifr_qlen := 499\<rparr>) < 500"
    by simp
  from transport_checked_before_bus [of 10 demo_headers demo_world "[Opt_q]" 1] a
  have "500 \<le> ifr_qlen demo_world"
    by blast
  moreover from transport_checked_before_bus
    [of 10 demo_headers "demo_world\<lparr>ifr_qlen := 499\<rparr>" "[Opt_q]" 1
      "(initial_locals demo_headers)\<lparr>query := True\<rparr>"] b c d
  have "main 10 demo_headers (demo_world\<lparr>ifr_qlen := 499\<rparr>) [Opt_q] 1 = ([], Return 1)"
    by blast
  ultimately show ?thesis using a by simp
qed

text \<open>C6 as it is written asks for a queue depth that exceeds 500.  A queue of exactly
  500 frames does not exceed 500, and the bus is used all the same.\<close>

theorem queue_of_500_accepted:
  "\<not> 500 < ifr_qlen (demo_world\<lparr>ifr_qlen := 500\<rparr>)
   \<and> main 10 demo_headers (demo_world\<lparr>ifr_qlen := 500\<rparr>) [Opt_q] 1
       = ([Query_modules, Get_status 5], Return 0)"
  by code_simp

subsection \<open>The module that is flashed\<close>

text \<open>Once the options, the usage test and the transport are passed, \<^verbatim>\<open>main\<close> is
  \<open>session\<close>; and after a discovery without error that is not a query, \<open>session\<close> is
  \<open>flash\<close> for the variables that \<open>select_module\<close> leaves.\<close>

lemma main_session:
  "parse_options w (initial_locals h) opts = Inr v0 \<Longrightarrow> \<not> bad_usage v0 nargs \<Longrightarrow>
   open_transport w = None \<Longrightarrow> main fuel h w opts nargs = session fuel h w v0"
  by (simp add: main_def)

lemma session_flash:
  assumes "query_modules_rc w \<noteq> 0" and "\<not> query v0"
    and "discover_loop h w 0 (map (query_modules_slot w) [0..<MAX_MODULES h]) = (disc, Inr ms)"
  shows "session fuel h w v0 =
     (Query_modules # disc
        @ fst (flash fuel h
            (select_module h w (v0\<lparr>entries := query_modules_rc w, modules := ms\<rparr>))),
      snd (flash fuel h
            (select_module h w (v0\<lparr>entries := query_modules_rc w, modules := ms\<rparr>))))"
  using assms by (simp add: session_def Let_def split: prod.splits)

text \<open>C7, as the code has it.  When \<^verbatim>\<open>query_modules\<close> reports more than one module and
  no module id was given, this is no error: \<^verbatim>\<open>main\<close> asks for a module id, the number
  read from standard input (or \<^verbatim>\<open>NO_MODULE_ID\<close> when none is read) is masked with
  \<^verbatim>\<open>MAX_MODULES_MASK\<close>, and the session goes on with this module id, as it does for a
  module id that was given.\<close>

theorem prompt_selects_module:
  assumes "parse_options w (initial_locals h) opts = Inr v0"
    and "\<not> bad_usage v0 nargs"
    and "open_transport w = None"
    and "\<not> query v0"
    and "module_id v0 = NO_MODULE_ID h"
    and "query_modules_rc w \<noteq> 0" and "query_modules_rc w \<noteq> 1"
    and "discover_loop h w 0 (map (query_modules_slot w) [0..<MAX_MODULES h]) = (disc, Inr ms)"
    and "v = v0\<lparr>entries := query_modules_rc w, modules := ms,
           module_id := (case scanf_d w of Some x \<Rightarrow> x | None \<Rightarrow> NO_MODULE_ID h)
                          AND MAX_MODULES_MASK h\<rparr>"
  shows "main fuel h w opts nargs
      = (Query_modules # disc @ fst (flash fuel h v), snd (flash fuel h v))"
proof -
  have sel: "select_module h w (v0\<lparr>entries := query_modules_rc w, modules := ms\<rparr>) = v"
    using assms(5,7,9) by (simp add: select_module_def split: option.splits)
  show ?thesis
    using main_session [OF assms(1-3)] session_flash [OF assms(6,4,8)] sel by simp
qed

theorem prompt_selects_module_witness:
  "parse_options two_modules_world (initial_locals demo_headers) [Opt_f ''fw.bin'']
       = Inr ((initial_locals demo_headers)\<lparr>infile := Some (regular_file demo_image)\<rparr>)
   \<and> \<not> bad_usage ((initial_locals demo_headers)\<lparr>infile := Some (regular_file demo_image)\<rparr>) 1
   \<and> open_transport two_modules_world = None
   \<and> \<not> query ((initial_locals demo_headers)\<lparr>infile := Some (regular_file demo_image)\<rparr>)
   \<and> module_id ((initial_locals demo_headers)\<lparr>infile := Some (regular_file demo_image)\<rparr>)
       = NO_MODULE_ID demo_headers
   \<and> query_modules_rc two_modules_world \<noteq> 0
   \<and> query_modules_rc two_modules_world \<noteq> 1
   \<and> main 10 demo_headers two_modules_world [Opt_f ''fw.bin''] 1
      = (Query_modules
           # fst (discover_loop demo_headers two_modules_world 0
                (map (query_modules_slot two_modules_world) [0..<MAX_MODULES demo_headers]))
           @ fst (flash 10 demo_headers
               ((initial_locals demo_headers)
                \<lparr>infile := Some (regular_file demo_image),
                  entries := query_modules_rc two_modules_world,
                  modules := projr (snd (discover_loop demo_headers two_modules_world 0
                    (map (query_modules_slot two_modules_world) [0..<MAX_MODULES demo_headers]))),
                  module_id := (case scanf_d two_modules_world of Some x \<Rightarrow> x
                                | None \<Rightarrow> NO_MODULE_ID demo_headers)
                               AND MAX_MODULES_MASK demo_headers\<rparr>)),
         snd (flash 10 demo_headers
               ((initial_locals demo_headers)
                \<lparr>infile := Some (regular_file demo_image),
                  entries := query_modules_rc two_modules_world,
                  modules := projr (snd (discover_loop demo_headers two_modules_world 0
                    (map (query_modules_slot two_modules_world) [0..<MAX_MODULES demo_headers]))),
                  module_id := (case scanf_d two_modules_world of Some x \<Rightarrow> x
                                | None \<Rightarrow> NO_MODULE_ID demo_headers)
                               AND MAX_MODULES_MASK demo_headers\<rparr>)))
   \<and> (case scanf_d two_modules_world of Some x \<Rightarrow> x | None \<Rightarrow> NO_MODULE_ID demo_headers)
       AND MAX_MODULES_MASK demo_headers = 3"
proof -
  let ?D = "discover_loop demo_headers two_modules_world 0
      (map (query_modules_slot two_modules_world) [0..<MAX_MODULES demo_headers])"
  let ?v0 = "(initial_locals demo_headers)\<lparr>infile := Some (regular_file demo_image)\<rparr>"
  have a: "parse_options two_modules_world (initial_locals demo_headers) [Opt_f ''fw.bin'']
       = Inr ?v0"
    by (simp add: two_modules_world_def demo_world_def world_with_def)
  have b: "\<not> bad_usage ?v0 1"
    by (simp add: bad_usage_def initial_locals_def)
  have c: "open_transport two_modules_world = None"
    by code_simp
  have d: "\<not> query ?v0"
    by (simp add: initial_locals_def)
  have e: "module_id ?v0 = NO_MODULE_ID demo_headers"
    by (simp add: initial_locals_def)
  have f: "query_modules_rc two_modules_world \<noteq> 0" "query_modules_rc two_modules_world \<noteq> 1"
    by (simp_all add: two_modules_world_def)
  have "\<not> isl (snd ?D)"
    by code_simp
  then have g: "?D = (fst ?D, Inr (projr (snd ?D)))"
    by (simp add: prod_eq_iff)
  have m: "(case scanf_d two_modules_world of Some x \<Rightarrow> x | None \<Rightarrow> NO_MODULE_ID demo_headers)
       AND MAX_MODULES_MASK demo_headers = 3"
    by code_simp
  note t = prompt_selects_module [OF a b c d e f g refl, of 10]
  show ?thesis
    by (intro conjI a b c d e f m) (rule t)
qed

text \<open>C7 as it is written makes several modules without a module id a fatal error.
  Here two modules are found, no \<^verbatim>\<open>-i\<close> is given, the user answers 3, and the session
  erases and writes the flash of module 3 and returns 0.\<close>

theorem several_modules_prompt:
  "query_modules_rc two_modules_world = 2
   \<and> parse_options two_modules_world (initial_locals demo_headers) [Opt_f ''fw.bin'']
       = Inr ((initial_locals demo_headers)\<lparr>infile := Some (regular_file demo_image)\<rparr>)
   \<and> module_id ((initial_locals demo_headers)\<lparr>infile := Some (regular_file demo_image)\<rparr>)
       = NO_MODULE_ID demo_headers
   \<and> snd (main 10 demo_headers two_modules_world [Opt_f ''fw.bin''] 1) = Return 0
   \<and> Erase_flashblocks False 3 1 0
       \<in> set (fst (main 10 demo_headers two_modules_world [Opt_f ''fw.bin''] 1))
   \<and> Write_block False 3 0x1000 (padded_block 32 demo_image 0) 1 8
       \<in> set (fst (main 10 demo_headers two_modules_world [Opt_f ''fw.bin''] 1))"
proof -
  have a: "query_modules_rc two_modules_world = 2"
    by (simp add: two_modules_world_def)
  have b: "parse_options two_modules_world (initial_locals demo_headers) [Opt_f ''fw.bin'']
       = Inr ((initial_locals demo_headers)\<lparr>infile := Some (regular_file demo_image)\<rparr>)"
    by (simp add: two_modules_world_def demo_world_def world_with_def)
  have c: "module_id ((initial_locals demo_headers)\<lparr>infile := Some (regular_file demo_image)\<rparr>)
       = NO_MODULE_ID demo_headers"
    by (simp add: initial_locals_def)
  have d: "snd (main 10 demo_headers two_modules_world [Opt_f ''fw.bin''] 1) = Return 0"
    by code_simp
  have e: "Erase_flashblocks False 3 1 0
       \<in> set (fst (main 10 demo_headers two_modules_world [Opt_f ''fw.bin''] 1))"
    by code_simp
  have f: "Write_block False 3 0x1000 (padded_block 32 demo_image 0) 1 8
       \<in> set (fst (main 10 demo_headers two_modules_world [Opt_f ''fw.bin''] 1))"
    by code_simp
  show ?thesis
    by (intro conjI a b c d e f)
qed

text \<open>C9.  The module id of the option \<^verbatim>\<open>-i\<close> is expected to be restricted to the slots
  of \<^verbatim>\<open>modules\<close> before \<^verbatim>\<open>modules[module_id]\<close> is read.  It is not: with \<^verbatim>\<open>-i 99\<close> and 32
  slots the read is outside the array, while the same number entered at the prompt is
  masked to 3.\<close>

theorem module_id_option_unchecked:
  "main 10 demo_headers demo_world [Opt_f ''fw.bin'', Opt_i 99] 1
     = ([Query_modules, Get_status 5], Out_of_bounds)
   \<and> main 10 demo_headers (two_modules_world\<lparr>scanf_d := Some 99\<rparr>) [Opt_f ''fw.bin''] 1
     = main 10 demo_headers two_modules_world [Opt_f ''fw.bin''] 1"
  by code_simp

subsection \<open>The loops, one round at a time\<close>

declare patch_loop.simps [simp del]

lemma patch_step_events:
  "patch_step h img base i bs = (evs, r) \<Longrightarrow> \<forall>e\<in>set evs. is_calc e"
  by (auto simp: patch_step_def Let_def split: option.splits if_splits prod.splits)

lemma patch_loop_Inl:
  "patch_step h img base i bs = (es, Inl out) \<Longrightarrow> patch_loop h img base i bs = (es, Inl out)"
  by (subst patch_loop.simps) simp

lemma patch_loop_None:
  "patch_step h img base i bs = (es, Inr None) \<Longrightarrow> patch_loop h img base i bs = (es, Inr bs)"
  by (subst patch_loop.simps) simp

lemma patch_loop_Some:
  "patch_step h img base i bs = (es, Inr (Some bs')) \<Longrightarrow>
   patch_loop h img base i bs =
     (es @ fst (patch_loop h img base (Suc i) bs'), snd (patch_loop h img base (Suc i) bs'))"
  by (subst patch_loop.simps) (simp split: prod.splits)

lemma patch_loop_events:
  "patch_loop h img base i bs = (evs, r) \<Longrightarrow> \<forall>e\<in>set evs. is_calc e"
proof (induction h img base i bs arbitrary: evs r rule: patch_loop.induct)
  case (1 h img base i bs)
  obtain es x where step: "patch_step h img base i bs = (es, x)"
    by (cases "patch_step h img base i bs")
  have es: "\<forall>e\<in>set es. is_calc e"
    using step by (rule patch_step_events)
  show ?case
  proof (cases x)
    case (Inl out)
    with step "1.prems" es show ?thesis
      by (simp add: patch_loop_Inl)
  next
    case (Inr ob)
    show ?thesis
    proof (cases ob)
      case None
      with Inr step "1.prems" es show ?thesis
        by (simp add: patch_loop_None)
    next
      case (Some bs')
      obtain es' r' where rec: "patch_loop h img base (Suc i) bs' = (es', r')"
        by (cases "patch_loop h img base (Suc i) bs'")
      have "\<forall>e\<in>set es'. is_calc e"
        using "1.IH" [OF step [symmetric] Inr Some rec] .
      with Inr Some step rec "1.prems" es show ?thesis
        by (auto simp: patch_loop_Some)
    qed
  qed
qed

lemma patch_crc_array_events:
  "patch_crc_array h img base bs = (evs, r) \<Longrightarrow> \<forall>e\<in>set evs. is_calc e"
  unfolding patch_crc_array_def Let_def
  by (auto split: option.splits bool.splits if_splits dest: patch_loop_events)

lemma is_calc_write_phase: "is_calc e \<Longrightarrow> write_phase_event e"
  by (cases e) simp_all

lemma patch_step_outcome: "patch_step h img base i bs = (es, Inl out) \<Longrightarrow> out = Out_of_bounds"
  by (auto simp: patch_step_def Let_def split: option.splits if_splits prod.splits)

lemma patch_loop_outcome: "patch_loop h img base i bs = (evs, Inl out) \<Longrightarrow> out = Out_of_bounds"
proof (induction h img base i bs arbitrary: evs rule: patch_loop.induct)
  case (1 h img base i bs)
  obtain es x where step: "patch_step h img base i bs = (es, x)"
    by (cases "patch_step h img base i bs")
  show ?case
  proof (cases x)
    case (Inl o')
    with step "1.prems" show ?thesis
      by (auto simp: patch_loop_Inl dest: patch_step_outcome)
  next
    case (Inr ob)
    show ?thesis
    proof (cases ob)
      case None
      with Inr step "1.prems" show ?thesis
        by (simp add: patch_loop_None)
    next
      case (Some bs1)
      obtain es' r' where rec: "patch_loop h img base (Suc i) bs1 = (es', r')"
        by (cases "patch_loop h img base (Suc i) bs1")
      from Inr Some step rec "1.prems" have "r' = Inl out"
        by (simp add: patch_loop_Some)
      with "1.IH" [OF step [symmetric] Inr Some] rec show ?thesis by simp
    qed
  qed
qed

lemma patch_crc_array_outcome:
  "patch_crc_array h img base bs = (evs, Inl out) \<Longrightarrow> out = Out_of_bounds"
  unfolding patch_crc_array_def Let_def
  by (auto split: option.splits bool.splits if_splits dest: patch_loop_outcome)

text \<open>A round does not depend on the stream it is entered with.\<close>

lemma write_round_stream: "write_round h v img st off = write_round h v img st' off"
  by (simp add: write_round_def fseek_def)

lemma length_padded_block: "length (padded_block B bytes off) = B + 2"
  by (simp add: padded_block_def)

lemma read_block_at:
  "read_block h img \<lparr>pos = off, eof = False\<rparr>
     = (padded_block (BLKSZ h) (contents img) off,
        \<lparr>pos = off + length (take (BLKSZ h) (drop off (contents img))),
         eof = (length (take (BLKSZ h) (drop off (contents img))) < BLKSZ h
                \<and> \<not> io_error img)\<rparr>)"
  by (simp add: read_block_def fread_def padded_block_def)

lemma length_takeWhile_eq: "length (takeWhile P xs) = length xs \<longleftrightarrow> (\<forall>x\<in>set xs. P x)"
  by (induction xs) auto

lemma first_nonempty_empty:
  assumes len: "length buf = B + 2"
  shows "first_nonempty B buf = B \<longleftrightarrow> block_empty B buf"
proof -
  have lt: "length (take B buf) = B"
    using len by simp
  have "first_nonempty B buf = B \<longleftrightarrow> (\<forall>b\<in>set (take B buf). b = EMPTY)"
    using length_takeWhile_eq [of "\<lambda>b. b = EMPTY" "take B buf"] lt
    by (simp add: first_nonempty_def)
  also have "\<dots> \<longleftrightarrow> block_empty B buf"
    by (simp add: block_empty_def EMPTY_def)
  finally show ?thesis .
qed

text \<open>One round in terms of the block of the image at its offset.\<close>

lemma write_round_unfold:
  "write_round h v img st off =
     (if \<not> seekable img then ([], Break)
      else
        (let buf = padded_block (BLKSZ h) (contents img) off;
             st2 = \<lparr>pos = off + length (take (BLKSZ h) (drop off (contents img))),
                    eof = (length (take (BLKSZ h) (drop off (contents img))) < BLKSZ h
                           \<and> \<not> io_error img)\<rparr>
         in
           if block_empty (BLKSZ h) buf then ([Read_block off buf], Done st2)
           else if crc_start v \<noteq> 0 \<and> off \<le> unat (crc_start v)
                   \<and> unat (crc_start v) < off + BLKSZ h
           then
             (case patch_crc_array h img (unat (crc_start v) - off) (buf, st2) of
                (evs, Inl out) \<Rightarrow> (Read_block off buf # evs, Abort out)
              | (evs, Inr (buf', st3)) \<Rightarrow>
                  (Read_block off buf # evs @
                     [Write_block (dry_run v) (module_id v) (int off + uint (floffset v)) buf'
                        (alternating_xor_flip v) (can_dlc (the_module v))],
                   Done st3))
           else
             ([Read_block off buf,
               Write_block (dry_run v) (module_id v) (int off + uint (floffset v)) buf
                 (alternating_xor_flip v) (can_dlc (the_module v))],
              Done st2)))"
  using first_nonempty_empty [OF length_padded_block, of "BLKSZ h" "contents img" off]
  by (simp add: write_round_def fseek_def read_block_at Let_def)

lemma round_writes:
  assumes "Write_block d m a wbuf f dlc \<in> set (fst (write_round h v img st off))"
  shows "a = int off + uint (floffset v)
    \<and> \<not> block_empty (BLKSZ h) (padded_block (BLKSZ h) (contents img) off)"
proof -
  have "Write_block d m a wbuf f dlc \<notin> set evs"
    if "patch_crc_array h img base bs = (evs, r)" for base bs evs r
    using patch_crc_array_events [OF that] by auto
  then show ?thesis
    using assms
    by (auto simp: write_round_unfold Let_def split: prod.splits sum.splits if_splits)
qed

lemma round_events: "\<forall>e\<in>set (fst (write_round h v img st off)). write_phase_event e"
proof -
  have "\<forall>e\<in>set evs. write_phase_event e"
    if "patch_crc_array h img base bs = (evs, r)" for base bs evs r
    using patch_crc_array_events [OF that] is_calc_write_phase by blast
  then show ?thesis
    by (auto simp: write_round_unfold Let_def split: prod.splits sum.splits)
qed

lemma round_outcome: "snd (write_round h v img st off) = Abort out \<Longrightarrow> out = Out_of_bounds"
  by (auto simp: write_round_unfold Let_def split: prod.splits sum.splits if_splits
      dest: patch_crc_array_outcome)

text \<open>Every call of the write loop that starts at the offset \<open>off\<close> is a call of the round
  at one of the offsets \<open>off\<close>, \<open>off + BLKSZ\<close>, \<open>off + 2 * BLKSZ\<close>, ...; and when the loop
  ends the process, a round at one of these offsets does.\<close>

lemma write_loop_round:
  "e \<in> set (fst (write_loop fuel h v img st off)) \<Longrightarrow>
   \<exists>j. e \<in> set (fst (write_round h v img st (off + j * BLKSZ h)))"
proof (induction fuel arbitrary: st off)
  case 0
  then show ?case by simp
next
  case (Suc fuel)
  obtain evs rnd where rd: "write_round h v img st off = (evs, rnd)"
    by (cases "write_round h v img st off")
  have first: ?case if "e \<in> set evs"
    using that rd by (intro exI [of _ 0]) simp
  show ?case
  proof (cases rnd)
    case (Abort out)
    with Suc.prems rd first show ?thesis by simp
  next
    case Break
    with Suc.prems rd first show ?thesis by simp
  next
    case (Done st')
    show ?thesis
    proof (cases "eof st' \<or> e \<in> set evs")
      case True
      with Suc.prems rd Done first show ?thesis by auto
    next
      case False
      with Suc.prems rd Done
      have "e \<in> set (fst (write_loop fuel h v img st' (off + BLKSZ h)))"
        by (auto split: prod.splits)
      from Suc.IH [OF this] obtain j where
        "e \<in> set (fst (write_round h v img st' (off + BLKSZ h + j * BLKSZ h)))"
        by blast
      then have "e \<in> set (fst (write_round h v img st (off + Suc j * BLKSZ h)))"
        using write_round_stream [of h v img st' "off + BLKSZ h + j * BLKSZ h" st]
        by (simp add: add.assoc)
      then show ?thesis by blast
    qed
  qed
qed

lemma write_loop_abort:
  "snd (write_loop fuel h v img st off) = Some out \<Longrightarrow>
   out = Out_of_fuel \<or> (\<exists>j. snd (write_round h v img st (off + j * BLKSZ h)) = Abort out)"
proof (induction fuel arbitrary: st off)
  case 0
  then show ?case by simp
next
  case (Suc fuel)
  obtain evs rnd where rd: "write_round h v img st off = (evs, rnd)"
    by (cases "write_round h v img st off")
  show ?case
  proof (cases rnd)
    case (Abort out')
    with Suc.prems rd have "snd (write_round h v img st (off + 0 * BLKSZ h)) = Abort out"
      by simp
    then show ?thesis by blast
  next
    case Break
    with Suc.prems rd show ?thesis by simp
  next
    case (Done st')
    show ?thesis
    proof (cases "eof st'")
      case True
      with Suc.prems rd Done show ?thesis by simp
    next
      case False
      with Suc.prems rd Done
      have "snd (write_loop fuel h v img st' (off + BLKSZ h)) = Some out"
        by (auto split: prod.splits)
      from Suc.IH [OF this] show ?thesis
      proof
        assume "out = Out_of_fuel"
        then show ?thesis by simp
      next
        assume "\<exists>j. snd (write_round h v img st' (off + BLKSZ h + j * BLKSZ h)) = Abort out"
        then obtain j where
          "snd (write_round h v img st' (off + BLKSZ h + j * BLKSZ h)) = Abort out"
          by blast
        then have "snd (write_round h v img st (off + Suc j * BLKSZ h)) = Abort out"
          using write_round_stream [of h v img st' "off + BLKSZ h + j * BLKSZ h" st]
          by (simp add: add.assoc)
        then show ?thesis by blast
      qed
    qed
  qed
qed

lemma write_loop_events: "\<forall>e\<in>set (fst (write_loop fuel h v img st off)). write_phase_event e"
  using write_loop_round round_events by blast

lemma write_loop_outcome:
  "snd (write_loop fuel h v img st off) = Some out \<Longrightarrow> out = Out_of_fuel \<or> out = Out_of_bounds"
  using write_loop_abort round_outcome by blast

subsection \<open>Fuel\<close>

text \<open>Once the fuel is enough for the write loop to end, more fuel changes nothing.\<close>

lemma write_loop_more_fuel:
  "snd (write_loop n h v img st off) \<noteq> Some Out_of_fuel \<Longrightarrow>
   write_loop (n + k) h v img st off = write_loop n h v img st off"
proof (induction n arbitrary: st off)
  case 0
  then show ?case by simp
next
  case (Suc n)
  obtain evs rnd where rd: "write_round h v img st off = (evs, rnd)"
    by (cases "write_round h v img st off")
  show ?case
  proof (cases rnd)
    case (Abort out)
    with rd show ?thesis by simp
  next
    case Break
    with rd show ?thesis by simp
  next
    case (Done st')
    show ?thesis
    proof (cases "eof st'")
      case True
      with rd Done show ?thesis by simp
    next
      case False
      with Suc.prems rd Done
      have "snd (write_loop n h v img st' (off + BLKSZ h)) \<noteq> Some Out_of_fuel"
        by (simp split: prod.splits)
      from Suc.IH [OF this] rd Done False show ?thesis by simp
    qed
  qed
qed

lemma flash_more_fuel:
  assumes "snd (flash n h v) \<noteq> Out_of_fuel"
  shows "flash (n + k) h v = flash n h v"
proof -
  have "write_loop (n + k) h v' img st 0 = write_loop n h v' img st 0"
    if "snd (write_loop n h v' img st 0) \<noteq> Some Out_of_fuel" for v' img st
    using that by (rule write_loop_more_fuel)
  with assms show ?thesis
    unfolding flash_def Let_def
    by (auto split: if_splits option.splits prod.splits)
qed

lemma main_more_fuel:
  assumes "snd (main n h w opts nargs) \<noteq> Out_of_fuel"
  shows "main (n + k) h w opts nargs = main n h w opts nargs"
proof -
  have "flash (n + k) h v = flash n h v" if "snd (flash n h v) \<noteq> Out_of_fuel" for v
    using that by (rule flash_more_fuel)
  with assms show ?thesis
    unfolding main_def session_def Let_def
    by (auto split: sum.splits if_splits option.splits prod.splits)
qed

subsection \<open>When the write loop ends\<close>

text \<open>On a file that cannot be positioned the loop is left at the first \<^verbatim>\<open>fseek\<close>: nothing
  is read and nothing is written.\<close>

lemma write_loop_unseekable:
  "\<not> seekable img \<Longrightarrow> write_loop (Suc fuel) h v img st off = ([], None)"
  by (simp add: write_round_unfold)

lemma write_loop_more:
  "write_round h v img st off = (evs, Done st') \<Longrightarrow> \<not> eof st' \<Longrightarrow>
   write_loop (Suc fuel) h v img st off =
     (evs @ fst (write_loop fuel h v img st' (off + BLKSZ h)),
      snd (write_loop fuel h v img st' (off + BLKSZ h)))"
  by (simp split: prod.splits)

text \<open>A round that is done without the end-of-file indicator, on a file whose reads do
  not fail, has read a full block or is the round of the checksum table.\<close>

lemma round_progress:
  assumes "write_round h v img st off = (evs, Done st')" and "\<not> eof st'" and "\<not> io_error img"
    and "0 < BLKSZ h"
  shows "off + BLKSZ h \<le> length (contents img) \<or> off \<le> unat (crc_start v)"
proof (rule ccontr)
  assume n: "\<not> (off + BLKSZ h \<le> length (contents img) \<or> off \<le> unat (crc_start v))"
  then have short: "length (take (BLKSZ h) (drop off (contents img))) < BLKSZ h"
    using assms(4) by auto
  from assms(1) n have "eof st'"
    using short assms(3)
    by (auto simp: write_round_unfold Let_def split: if_splits)
  with assms(2) show False by simp
qed

text \<open>So on such a file, with a block size that is not 0, the loop ends: fuel beyond the
  length of the file and the scan offset is enough.\<close>

lemma write_loop_returns:
  assumes "0 < BLKSZ h" and "\<not> io_error img"
  shows "max (length (contents img)) (unat (crc_start v)) + 1 - off < fuel \<Longrightarrow>
     snd (write_loop fuel h v img st off) \<noteq> Some Out_of_fuel"
proof (induction fuel arbitrary: st off)
  case 0
  then show ?case by simp
next
  case (Suc fuel)
  obtain evs rnd where rd: "write_round h v img st off = (evs, rnd)"
    by (cases "write_round h v img st off")
  show ?case
  proof (cases rnd)
    case (Abort out)
    with rd round_outcome [of h v img st off out] show ?thesis by auto
  next
    case Break
    with rd show ?thesis by simp
  next
    case (Done st')
    show ?thesis
    proof (cases "eof st'")
      case True
      with rd Done show ?thesis by simp
    next
      case False
      from rd Done have "write_round h v img st off = (evs, Done st')"
        by simp
      from round_progress [OF this False assms(2,1)]
      have "off \<le> max (length (contents img)) (unat (crc_start v))"
        using assms(1) by auto
      with Suc.prems assms(1)
      have "max (length (contents img)) (unat (crc_start v)) + 1 - (off + BLKSZ h) < fuel"
        by simp
      from Suc.IH [OF this] write_loop_more [OF \<open>write_round h v img st off = (evs, Done st')\<close> False]
      show ?thesis by simp
    qed
  qed
qed

text \<open>On a file whose reads fail neither \<^verbatim>\<open>fread\<close> in \<^verbatim>\<open>main\<close> nor the read of the
  checksum helper sets the end-of-file indicator.\<close>

lemma patch_step_no_eof:
  "seekable img \<Longrightarrow> io_error img \<Longrightarrow> patch_step h img base i bs = (es, Inr (Some bs')) \<Longrightarrow>
   \<not> eof (snd bs')"
  by (auto simp: patch_step_def calc_crc16_def fseek_def fread_def Let_def
      split: option.splits if_splits prod.splits)

lemma patch_loop_no_eof:
  "seekable img \<Longrightarrow> io_error img \<Longrightarrow> \<not> eof (snd bs) \<Longrightarrow>
   patch_loop h img base i bs = (evs, Inr bs') \<Longrightarrow> \<not> eof (snd bs')"
proof (induction h img base i bs arbitrary: evs bs' rule: patch_loop.induct)
  case (1 h img base i bs)
  obtain es x where step: "patch_step h img base i bs = (es, x)"
    by (cases "patch_step h img base i bs")
  show ?case
  proof (cases x)
    case (Inl out)
    with step "1.prems" show ?thesis
      by (simp add: patch_loop_Inl)
  next
    case (Inr ob)
    show ?thesis
    proof (cases ob)
      case None
      with Inr step "1.prems" show ?thesis
        by (simp add: patch_loop_None)
    next
      case (Some bs1)
      obtain es' r' where rec: "patch_loop h img base (Suc i) bs1 = (es', r')"
        by (cases "patch_loop h img base (Suc i) bs1")
      from Inr Some step rec "1.prems" have r': "r' = Inr bs'"
        by (simp add: patch_loop_Some)
      have "\<not> eof (snd bs1)"
        using patch_step_no_eof [OF "1.prems"(1,2)] step Inr Some by simp
      from "1.IH" [OF step [symmetric] Inr Some "1.prems"(1,2) this] rec r'
      show ?thesis by simp
    qed
  qed
qed

lemma patch_crc_array_no_eof:
  "seekable img \<Longrightarrow> io_error img \<Longrightarrow> \<not> eof (snd bs) \<Longrightarrow>
   patch_crc_array h img base bs = (evs, Inr bs') \<Longrightarrow> \<not> eof (snd bs')"
  unfolding patch_crc_array_def Let_def
  by (auto split: option.splits bool.splits if_splits dest: patch_loop_no_eof)

lemma round_no_eof:
  assumes "seekable img" and "io_error img"
    and "write_round h v img st off = (evs, rnd)"
  shows "rnd \<noteq> Break \<and> (\<forall>st'. rnd = Done st' \<longrightarrow> \<not> eof st')"
proof -
  have "\<not> eof (snd bs')"
    if "patch_crc_array h img base (buf, st2) = (es, Inr bs')" "\<not> eof st2" for base buf st2 es bs'
    using patch_crc_array_no_eof [OF assms(1,2) _ that(1)] that(2) by simp
  then show ?thesis
    using assms
    by (fastforce simp: write_round_unfold Let_def split: if_splits prod.splits sum.splits)
qed

text \<open>So on such a file the loop is never left: whatever the fuel, it is still running
  when the fuel is used up, unless a round ended the process.\<close>

lemma read_error_never_ends:
  assumes "seekable img" and "io_error img"
  shows "snd (write_loop fuel h v img st off) \<noteq> None"
proof (induction fuel arbitrary: st off)
  case 0
  show ?case by simp
next
  case (Suc fuel)
  obtain evs rnd where rd: "write_round h v img st off = (evs, rnd)"
    by (cases "write_round h v img st off")
  show ?case
  proof (cases rnd)
    case (Abort out)
    with rd show ?thesis by simp
  next
    case Break
    with round_no_eof [OF assms rd] show ?thesis by simp
  next
    case (Done st')
    with round_no_eof [OF assms rd] have ne: "\<not> eof st'"
      by simp
    from rd Done have "write_round h v img st off = (evs, Done st')"
      by simp
    from write_loop_more [OF this ne] Suc.IH show ?thesis by simp
  qed
qed

text \<open>With a block size of 0 no round reads a byte or finds the end of the file.\<close>

lemma write_loop_zero:
  assumes "BLKSZ h = 0" and "seekable img"
  shows "write_loop fuel h v img st off = (replicate fuel (Read_block off [0xFF, 0xFF]), Some Out_of_fuel)"
proof (induction fuel arbitrary: st)
  case 0
  show ?case by simp
next
  case (Suc fuel)
  have "write_round h v img st off
      = ([Read_block off [0xFF, 0xFF]], Done \<lparr>pos = off, eof = False\<rparr>)"
    using assms by (simp add: write_round_unfold padded_block_def block_empty_def)
  with Suc.IH assms(1) show ?case by simp
qed

subsection \<open>What the write phase reads and writes\<close>

text \<open>C2.  If the block of the image at an offset consists of 0xFF only (after
  padding), the write phase makes no \<^verbatim>\<open>write_block\<close> call for the flash address of this
  offset, however long the loop is followed, and the round of the loop at this offset
  does nothing but read: it is done, as any other round, with the stream as \<^verbatim>\<open>fread\<close>
  left it.  (On a file that cannot be positioned the round leaves the loop at \<^verbatim>\<open>fseek\<close>
  and does not even read.)\<close>

theorem empty_block_not_written:
  assumes "block_empty (BLKSZ h) (padded_block (BLKSZ h) (contents img) off)"
  shows "Write_block d m (int off + uint (floffset v)) wbuf f dlc
        \<notin> set (fst (write_loop fuel h v img st 0))
      \<and> write_round h v img st off
        = (if seekable img
           then ([Read_block off (padded_block (BLKSZ h) (contents img) off)],
                 Done \<lparr>pos = off + length (take (BLKSZ h) (drop off (contents img))),
                       eof = (length (take (BLKSZ h) (drop off (contents img))) < BLKSZ h
                              \<and> \<not> io_error img)\<rparr>)
           else ([], Break))"
proof
  show "Write_block d m (int off + uint (floffset v)) wbuf f dlc
      \<notin> set (fst (write_loop fuel h v img st 0))"
  proof
    assume "Write_block d m (int off + uint (floffset v)) wbuf f dlc
        \<in> set (fst (write_loop fuel h v img st 0))"
    from write_loop_round [OF this] obtain j where
      "Write_block d m (int off + uint (floffset v)) wbuf f dlc
        \<in> set (fst (write_round h v img st (j * BLKSZ h)))"
      by auto
    from round_writes [OF this] have "int off = int (j * BLKSZ h)"
      and ne: "\<not> block_empty (BLKSZ h) (padded_block (BLKSZ h) (contents img) (j * BLKSZ h))"
      by simp_all
    then have "off = j * BLKSZ h"
      by (simp only: int_int_eq)
    with assms ne show False by simp
  qed
next
  show "write_round h v img st off
      = (if seekable img
         then ([Read_block off (padded_block (BLKSZ h) (contents img) off)],
               Done \<lparr>pos = off + length (take (BLKSZ h) (drop off (contents img))),
                     eof = (length (take (BLKSZ h) (drop off (contents img))) < BLKSZ h
                            \<and> \<not> io_error img)\<rparr>)
         else ([], Break))"
    using assms by (simp add: write_round_unfold Let_def)
qed

theorem empty_block_not_written_witness:
  "block_empty (BLKSZ demo_headers)
     (padded_block (BLKSZ demo_headers) (contents (regular_file sparse_image)) 32)
   \<and> Write_block False 5 (int 32 + uint (floffset (flash_locals demo_headers demo_locals)))
         (padded_block 32 sparse_image 32) 1 8
       \<notin> set (fst (write_loop 10 demo_headers (flash_locals demo_headers demo_locals)
           (regular_file sparse_image) \<lparr>pos = 0, eof = False\<rparr> 0))
   \<and> write_round demo_headers (flash_locals demo_headers demo_locals) (regular_file sparse_image)
         \<lparr>pos = 0, eof = False\<rparr> 32
       = (if seekable (regular_file sparse_image)
          then ([Read_block 32
                  (padded_block (BLKSZ demo_headers) (contents (regular_file sparse_image)) 32)],
                Done \<lparr>pos = 32 + length (take (BLKSZ demo_headers)
                                (drop 32 (contents (regular_file sparse_image)))),
                      eof = (length (take (BLKSZ demo_headers)
                                (drop 32 (contents (regular_file sparse_image))))
                               < BLKSZ demo_headers
                             \<and> \<not> io_error (regular_file sparse_image))\<rparr>)
          else ([], Break))
   \<and> seekable (regular_file sparse_image)
   \<and> map write_address (filter is_write
         (fst (write_loop 10 demo_headers (flash_locals demo_headers demo_locals)
           (regular_file sparse_image) \<lparr>pos = 0, eof = False\<rparr> 0)))
       = [0x1000, 0x1040]"
proof -
  have a: "block_empty (BLKSZ demo_headers)
     (padded_block (BLKSZ demo_headers) (contents (regular_file sparse_image)) 32)"
    by code_simp
  have b: "seekable (regular_file sparse_image)"
    by (simp add: regular_file_def)
  have c: "map write_address (filter is_write
         (fst (write_loop 10 demo_headers (flash_locals demo_headers demo_locals)
           (regular_file sparse_image) \<lparr>pos = 0, eof = False\<rparr> 0)))
       = [0x1000, 0x1040]"
    by code_simp
  show ?thesis
    by (intro conjI a b c empty_block_not_written [OF a, THEN conjunct1]
        empty_block_not_written [OF a, THEN conjunct2])
qed

subsection \<open>When the checksum table is looked for\<close>

text \<open>C10.  In a round whose block does not hold the scan offset \<^verbatim>\<open>crc_start\<close>, or with a
  scan offset of 0, the checksum patcher has no part: the round reads the block and, if
  it is not empty, writes it as it was read.  With a scan offset of 0 this holds for
  every round: however long the loop is followed, the write phase never calls
  \<^verbatim>\<open>calc_crc16\<close>, never leaves the buffer, and every block it writes is the block of the
  image as read, also when the image starts with a valid checksum table.\<close>

theorem no_patch_without_scan_offset:
  "(crc_start v = 0 \<or> unat (crc_start v) < off \<or> off + BLKSZ h \<le> unat (crc_start v)
      \<longrightarrow> write_round h v img st off
        = (if seekable img
           then (if block_empty (BLKSZ h) (padded_block (BLKSZ h) (contents img) off)
                 then [Read_block off (padded_block (BLKSZ h) (contents img) off)]
                 else [Read_block off (padded_block (BLKSZ h) (contents img) off),
                       Write_block (dry_run v) (module_id v) (int off + uint (floffset v))
                         (padded_block (BLKSZ h) (contents img) off)
                         (alternating_xor_flip v) (can_dlc (the_module v))],
                 Done \<lparr>pos = off + length (take (BLKSZ h) (drop off (contents img))),
                       eof = (length (take (BLKSZ h) (drop off (contents img))) < BLKSZ h
                              \<and> \<not> io_error img)\<rparr>)
           else ([], Break)))
   \<and> (crc_start v = 0 \<longrightarrow>
        (\<forall>e\<in>set (fst (write_loop fuel h v img st 0)). \<not> is_calc e)
        \<and> snd (write_loop fuel h v img st 0) \<noteq> Some Out_of_bounds
        \<and> (\<forall>d m a wbuf f dlc.
              Write_block d m a wbuf f dlc \<in> set (fst (write_loop fuel h v img st 0)) \<longrightarrow>
              (\<exists>j. a = int (j * BLKSZ h) + uint (floffset v)
                 \<and> wbuf = padded_block (BLKSZ h) (contents img) (j * BLKSZ h))))"
proof (rule conjI; rule impI)
  assume "crc_start v = 0 \<or> unat (crc_start v) < off \<or> off + BLKSZ h \<le> unat (crc_start v)"
  then show "write_round h v img st off
        = (if seekable img
           then (if block_empty (BLKSZ h) (padded_block (BLKSZ h) (contents img) off)
                 then [Read_block off (padded_block (BLKSZ h) (contents img) off)]
                 else [Read_block off (padded_block (BLKSZ h) (contents img) off),
                       Write_block (dry_run v) (module_id v) (int off + uint (floffset v))
                         (padded_block (BLKSZ h) (contents img) off)
                         (alternating_xor_flip v) (can_dlc (the_module v))],
                 Done \<lparr>pos = off + length (take (BLKSZ h) (drop off (contents img))),
                       eof = (length (take (BLKSZ h) (drop off (contents img))) < BLKSZ h
                              \<and> \<not> io_error img)\<rparr>)
           else ([], Break))"
    by (auto simp: write_round_unfold Let_def)
next
  assume z: "crc_start v = 0"
  have rnd: "write_round h v img st off
        = (if seekable img
           then (if block_empty (BLKSZ h) (padded_block (BLKSZ h) (contents img) off)
                 then [Read_block off (padded_block (BLKSZ h) (contents img) off)]
                 else [Read_block off (padded_block (BLKSZ h) (contents img) off),
                       Write_block (dry_run v) (module_id v) (int off + uint (floffset v))
                         (padded_block (BLKSZ h) (contents img) off)
                         (alternating_xor_flip v) (can_dlc (the_module v))],
                 Done \<lparr>pos = off + length (take (BLKSZ h) (drop off (contents img))),
                       eof = (length (take (BLKSZ h) (drop off (contents img))) < BLKSZ h
                              \<and> \<not> io_error img)\<rparr>)
           else ([], Break))" for off
    using z by (simp add: write_round_unfold Let_def)
  have 1: "\<forall>e\<in>set (fst (write_loop fuel h v img st 0)). \<not> is_calc e"
  proof
    fix e assume "e \<in> set (fst (write_loop fuel h v img st 0))"
    from write_loop_round [OF this] obtain j where
      "e \<in> set (fst (write_round h v img st (j * BLKSZ h)))"
      by auto
    then show "\<not> is_calc e"
      by (auto simp: rnd split: if_splits)
  qed
  have 2: "snd (write_loop fuel h v img st 0) \<noteq> Some Out_of_bounds"
  proof
    assume "snd (write_loop fuel h v img st 0) = Some Out_of_bounds"
    from write_loop_abort [OF this] obtain j where
      "snd (write_round h v img st (j * BLKSZ h)) = Abort Out_of_bounds"
      by auto
    then show False
      by (simp add: rnd split: if_splits)
  qed
  have 3: "\<exists>j. a = int (j * BLKSZ h) + uint (floffset v)
        \<and> wbuf = padded_block (BLKSZ h) (contents img) (j * BLKSZ h)"
    if "Write_block d m a wbuf f dlc \<in> set (fst (write_loop fuel h v img st 0))"
    for d m a wbuf f dlc
  proof -
    from write_loop_round [OF that] obtain j where
      "Write_block d m a wbuf f dlc \<in> set (fst (write_round h v img st (j * BLKSZ h)))"
      by auto
    then have "a = int (j * BLKSZ h) + uint (floffset v)
        \<and> wbuf = padded_block (BLKSZ h) (contents img) (j * BLKSZ h)"
      by (auto simp: rnd split: if_splits)
    then show ?thesis by blast
  qed
  from 1 2 3
  show "(\<forall>e\<in>set (fst (write_loop fuel h v img st 0)). \<not> is_calc e)
        \<and> snd (write_loop fuel h v img st 0) \<noteq> Some Out_of_bounds
        \<and> (\<forall>d m a wbuf f dlc.
              Write_block d m a wbuf f dlc \<in> set (fst (write_loop fuel h v img st 0)) \<longrightarrow>
              (\<exists>j. a = int (j * BLKSZ h) + uint (floffset v)
                 \<and> wbuf = padded_block (BLKSZ h) (contents img) (j * BLKSZ h)))"
    by blast
qed

theorem no_patch_without_scan_offset_witness:
  "crc_start (flash_locals demo_headers
       (demo_locals2\<lparr>infile := Some (regular_file table_first_image)\<rparr>)) = 0
   \<and> strcmp_eq (padded_block 32 table_first_image 0) (CRC_IDENT_STRING demo_headers) = Some True
   \<and> load (padded_block 32 table_first_image 0) 4 U8 = Some 1
   \<and> fst (write_round demo_headers
            (flash_locals demo_headers
               (demo_locals2\<lparr>infile := Some (regular_file table_first_image)\<rparr>))
            (regular_file table_first_image) \<lparr>pos = 0, eof = False\<rparr> 0)
       = [Read_block 0 (padded_block 32 table_first_image 0),
          Write_block False 5 0x1000 (padded_block 32 table_first_image 0) 0 6]
   \<and> Calc_crc16 0 4 \<notin> set (fst (write_loop 10 demo_headers
            (flash_locals demo_headers
               (demo_locals2\<lparr>infile := Some (regular_file table_first_image)\<rparr>))
            (regular_file table_first_image) \<lparr>pos = 0, eof = False\<rparr> 0))
   \<and> snd (write_loop 10 demo_headers
            (flash_locals demo_headers
               (demo_locals2\<lparr>infile := Some (regular_file table_first_image)\<rparr>))
            (regular_file table_first_image) \<lparr>pos = 0, eof = False\<rparr> 0) = None"
proof -
  let ?img = "regular_file table_first_image"
  let ?v = "flash_locals demo_headers (demo_locals2\<lparr>infile := Some ?img\<rparr>)"
  let ?st = "\<lparr>pos = 0, eof = False\<rparr>"
  have a: "crc_start ?v = 0"
    by code_simp
  have b: "strcmp_eq (padded_block 32 table_first_image 0) (CRC_IDENT_STRING demo_headers)
      = Some True"
    by code_simp
  have c: "load (padded_block 32 table_first_image 0) 4 U8 = Some 1"
    by code_simp
  note t = no_patch_without_scan_offset [of ?v 0 demo_headers ?img ?st 10]
  have ne: "\<not> block_empty (BLKSZ demo_headers)
      (padded_block (BLKSZ demo_headers) (contents ?img) 0)"
    by code_simp
  have sk: "seekable ?img"
    by (simp add: regular_file_def)
  have vals: "BLKSZ demo_headers = 32" "dry_run ?v = False" "module_id ?v = 5"
    "uint (floffset ?v) = 0x1000" "alternating_xor_flip ?v = 0" "can_dlc (the_module ?v) = 6"
    "contents ?img = table_first_image"
    by code_simp+
  from t a have "write_round demo_headers ?v ?img ?st 0
        = (if seekable ?img
           then (if block_empty (BLKSZ demo_headers)
                      (padded_block (BLKSZ demo_headers) (contents ?img) 0)
                 then [Read_block 0 (padded_block (BLKSZ demo_headers) (contents ?img) 0)]
                 else [Read_block 0 (padded_block (BLKSZ demo_headers) (contents ?img) 0),
                       Write_block (dry_run ?v) (module_id ?v) (int 0 + uint (floffset ?v))
                         (padded_block (BLKSZ demo_headers) (contents ?img) 0)
                         (alternating_xor_flip ?v) (can_dlc (the_module ?v))],
                 Done \<lparr>pos = 0 + length (take (BLKSZ demo_headers) (drop 0 (contents ?img))),
                       eof = (length (take (BLKSZ demo_headers) (drop 0 (contents ?img)))
                                < BLKSZ demo_headers
                              \<and> \<not> io_error ?img)\<rparr>)
           else ([], Break))"
    by blast
  with ne sk have d: "fst (write_round demo_headers ?v ?img ?st 0)
       = [Read_block 0 (padded_block 32 table_first_image 0),
          Write_block False 5 0x1000 (padded_block 32 table_first_image 0) 0 6]"
    by (simp add: vals)
  from t a have e: "\<forall>e\<in>set (fst (write_loop 10 demo_headers ?v ?img ?st 0)). \<not> is_calc e"
    by blast
  from e have g: "Calc_crc16 0 4 \<notin> set (fst (write_loop 10 demo_headers ?v ?img ?st 0))"
    by auto
  have f: "snd (write_loop 10 demo_headers ?v ?img ?st 0) = None"
    by code_simp
  show ?thesis
    by (intro conjI a b c d g f)
qed

text \<open>C3.  The offsets at which the write phase reads are expected to end exactly at
  the end of the image.  They do not: \<^verbatim>\<open>main\<close> tests \<^verbatim>\<open>feof(infile)\<close> at the end of a round,
  after \<^verbatim>\<open>calc_crc16\<close> has positioned and read the same stream.  In an image of 52 bytes
  whose short last block, at offset 32, is the checksum table, the read of the block
  sets the indicator, the helper clears it, and the loop reads once more, at offset 64,
  behind the end of the image.  In an image of 67 bytes whose table at offset 32 names a
  sub-range that reaches behind the last byte, the helper sets the indicator, and the
  loop is left after the block at offset 32: the block at offset 64 is never read.  And
  of a pipe no block is read at all.  In all three runs the loop is left in the regular
  way, and \<^verbatim>\<open>main\<close> goes on.\<close>

theorem write_phase_misses_end_of_image:
  "length short_table_image = 52
   \<and> write_loop 10 demo_headers (flash_locals demo_headers demo_locals)
       (regular_file short_table_image) \<lparr>pos = 0, eof = False\<rparr> 0
     = ([Read_block 0 (padded_block 32 short_table_image 0),
         Write_block False 5 0x1000 (padded_block 32 short_table_image 0) 1 8,
         Read_block 32 (padded_block 32 short_table_image 32),
         Calc_crc16 0 4,
         Write_block False 5 0x1020
           ((padded_block 32 short_table_image 32)[16 := 0xCA, 17 := 0x03]) 1 8,
         Read_block 64 (replicate 34 0xFF)],
        None)
   \<and> length long_range_image = 67
   \<and> write_loop 10 demo_headers (flash_locals demo_headers demo_locals)
       (regular_file long_range_image) \<lparr>pos = 0, eof = False\<rparr> 0
     = ([Read_block 0 (padded_block 32 long_range_image 0),
         Write_block False 5 0x1000 (padded_block 32 long_range_image 0) 1 8,
         Read_block 32 (padded_block 32 long_range_image 32),
         Calc_crc16 0 4,
         Calc_crc16 32 258,
         Write_block False 5 0x1020
           ((padded_block 32 long_range_image 32)[16 := 0xCA, 17 := 0x03, 28 := 0xE4, 29 := 0x03])
           1 8],
        None)
   \<and> write_loop 10 demo_headers (flash_locals demo_headers demo_locals)
       (pipe demo_image) \<lparr>pos = 0, eof = False\<rparr> 0
     = ([], None)"
proof -
  have a: "length short_table_image = 52"
    by code_simp
  have b: "write_loop 10 demo_headers (flash_locals demo_headers demo_locals)
       (regular_file short_table_image) \<lparr>pos = 0, eof = False\<rparr> 0
     = ([Read_block 0 (padded_block 32 short_table_image 0),
         Write_block False 5 0x1000 (padded_block 32 short_table_image 0) 1 8,
         Read_block 32 (padded_block 32 short_table_image 32),
         Calc_crc16 0 4,
         Write_block False 5 0x1020
           ((padded_block 32 short_table_image 32)[16 := 0xCA, 17 := 0x03]) 1 8,
         Read_block 64 (replicate 34 0xFF)],
        None)"
    by code_simp
  have c: "length long_range_image = 67"
    by code_simp
  have d: "write_loop 10 demo_headers (flash_locals demo_headers demo_locals)
       (regular_file long_range_image) \<lparr>pos = 0, eof = False\<rparr> 0
     = ([Read_block 0 (padded_block 32 long_range_image 0),
         Write_block False 5 0x1000 (padded_block 32 long_range_image 0) 1 8,
         Read_block 32 (padded_block 32 long_range_image 32),
         Calc_crc16 0 4,
         Calc_crc16 32 258,
         Write_block False 5 0x1020
           ((padded_block 32 long_range_image 32)[16 := 0xCA, 17 := 0x03, 28 := 0xE4, 29 := 0x03])
           1 8],
        None)"
    by code_simp
  have e: "write_loop 10 demo_headers (flash_locals demo_headers demo_locals)
       (pipe demo_image) \<lparr>pos = 0, eof = False\<rparr> 0
     = ([], None)"
    by code_simp
  show ?thesis
    by (intro conjI a b c d e)
qed

subsection \<open>The order of the commands\<close>

lemma flash_locals_fields:
  "module_id (flash_locals h v) = module_id v"
  "hw_type (flash_locals h v) = data (the_module v) 7"
  "dry_run (flash_locals h v) = dry_run v"
  "do_reset (flash_locals h v) = do_reset v"
  "infile (flash_locals h v) = infile v"
  "entries (flash_locals h v) = get_num_flashblocks h (data (the_module v) 7)"
  "crc_start (flash_locals h v) = get_crc_startpos h (data (the_module v) 7)"
  "floffset (flash_locals h v) = get_flash_offset h (data (the_module v) 7)"
  "alternating_xor_flip (flash_locals h v) = has_hw_flags h (data (the_module v) 7) FDATA_INVERT"
  by (simp_all add: flash_locals_def write_setup_def default_dlc_def Let_def)

lemma phases_flash_locals:
  "switch_phase h (default_dlc h (v\<lparr>hw_type := data (the_module v) 7\<rparr>))
     = switch_phase h (flash_locals h v)"
  "erase_phase ((default_dlc h (v\<lparr>hw_type := data (the_module v) 7\<rparr>))
       \<lparr>entries := get_num_flashblocks h (data (the_module v) 7)\<rparr>)
     = erase_phase (flash_locals h v)"
  by (simp_all add: switch_phase_def erase_phase_def flash_locals_def write_setup_def
      default_dlc_def Let_def)

lemma flash_unfold:
  "flash fuel h v =
     (if \<not> (0 \<le> module_id v \<and> module_id v < int (MAX_MODULES h)) then ([], Out_of_bounds)
      else if can_id (the_module v) = 0 then ([], Exit 1)
      else
        (case infile v of
           None \<Rightarrow> ([], Null_stream)
         | Some img \<Rightarrow>
             if check_ch_name h img (data (the_module v) 7) \<noteq> 0 then ([], Exit 1)
             else if get_num_flashblocks h (data (the_module v) 7) = 0
             then (switch_phase h (flash_locals h v), Exit 1)
             else
               (case snd (write_loop fuel h (flash_locals h v) img \<lparr>pos = 0, eof = False\<rparr> 0) of
                  Some out \<Rightarrow>
                    (switch_phase h (flash_locals h v) @ erase_phase (flash_locals h v)
                       @ fst (write_loop fuel h (flash_locals h v) img \<lparr>pos = 0, eof = False\<rparr> 0),
                     out)
                | None \<Rightarrow>
                    (switch_phase h (flash_locals h v) @ erase_phase (flash_locals h v)
                       @ fst (write_loop fuel h (flash_locals h v) img \<lparr>pos = 0, eof = False\<rparr> 0)
                       @ end_phase h (flash_locals h v) @ reset_phase h (flash_locals h v),
                     Return 0))))"
proof -
  have hw: "hw_type (default_dlc h (v\<lparr>hw_type := data (the_module v) 7\<rparr>)) = data (the_module v) 7"
    by (simp add: default_dlc_def)
  have fl: "write_setup h ((default_dlc h (v\<lparr>hw_type := data (the_module v) 7\<rparr>))
       \<lparr>entries := get_num_flashblocks h (data (the_module v) 7)\<rparr>) = flash_locals h v"
    by (simp add: flash_locals_def Let_def hw)
  show ?thesis
    unfolding flash_def Let_def
    by (simp only: phases_flash_locals hw fl) (simp split: option.splits prod.splits)
qed

lemma flash_done:
  assumes "flash fuel h v = (tr, Return 0)"
  shows "\<exists>img. infile v = Some img
      \<and> snd (write_loop fuel h (flash_locals h v) img \<lparr>pos = 0, eof = False\<rparr> 0) = None
      \<and> tr = switch_phase h (flash_locals h v) @ erase_phase (flash_locals h v)
            @ fst (write_loop fuel h (flash_locals h v) img \<lparr>pos = 0, eof = False\<rparr> 0)
            @ end_phase h (flash_locals h v) @ reset_phase h (flash_locals h v)"
  using assms
  by (subst (asm) flash_unfold)
    (auto split: if_splits option.splits dest: write_loop_outcome)

lemma write_phase_not_reset: "write_phase_event e \<Longrightarrow> \<not> is_reset e"
  by (cases e) simp_all

lemma demo_hw: "data (the_module demo_locals) 7 = 1" "data (the_module demo_locals2) 7 = 2"
  "module_id demo_locals = 5" "module_id demo_locals2 = 5" "do_reset demo_locals2"
  "dry_run demo_locals = False"
  by (simp_all add: the_module_def demo_locals_def demo_locals2_def demo_frame_def)

lemma demo_flag_values:
  "has_hw_flags demo_headers 1 f = 1"
  "has_hw_flags demo_headers 2 RESET_AFTER_FLASH = 0"
  by (simp_all add: demo_headers_def demo_flags_def)

text \<open>C5.  A session that ends with \<^verbatim>\<open>return 0\<close> ends as follows.  If the hardware type of
  the module has the flag \<^verbatim>\<open>RESET_AFTER_FLASH\<close>: reset, sleep, status query.  If it has
  not and the user gave \<^verbatim>\<open>-r\<close>: reset, sleep, and no status query.  Otherwise there is no
  reset.  No other reset is in the trace.\<close>

theorem reset_status_iff_flag:
  assumes "flash fuel h v = (tr, Return 0)"
  shows "\<exists>pre. (\<forall>e\<in>set pre. \<not> is_reset e)
      \<and> tr = pre @
          (if has_hw_flags h (data (the_module v) 7) RESET_AFTER_FLASH \<noteq> 0
           then [Reset_module (module_id v), Sleep, Get_status (module_id v)]
           else if do_reset v then [Reset_module (module_id v), Sleep]
           else [])"
proof -
  let ?v = "flash_locals h v"
  from flash_done [OF assms] obtain img where
    tr: "tr = (switch_phase h ?v @ erase_phase ?v
            @ fst (write_loop fuel h ?v img \<lparr>pos = 0, eof = False\<rparr> 0) @ end_phase h ?v)
          @ reset_phase h ?v"
    by auto
  have "\<forall>e\<in>set (switch_phase h ?v). \<not> is_reset e"
    by (auto simp: switch_phase_def)
  moreover have "\<forall>e\<in>set (erase_phase ?v). \<not> is_reset e"
    by (auto simp: erase_phase_def)
  moreover have "\<forall>e\<in>set (fst (write_loop fuel h ?v img \<lparr>pos = 0, eof = False\<rparr> 0)). \<not> is_reset e"
    using write_loop_events write_phase_not_reset by blast
  moreover have "\<forall>e\<in>set (end_phase h ?v). \<not> is_reset e"
    by (auto simp: end_phase_def)
  ultimately have pre: "\<forall>e\<in>set (switch_phase h ?v @ erase_phase ?v
      @ fst (write_loop fuel h ?v img \<lparr>pos = 0, eof = False\<rparr> 0) @ end_phase h ?v). \<not> is_reset e"
    by auto
  have rs: "reset_phase h ?v =
      (if has_hw_flags h (data (the_module v) 7) RESET_AFTER_FLASH \<noteq> 0
       then [Reset_module (module_id v), Sleep, Get_status (module_id v)]
       else if do_reset v then [Reset_module (module_id v), Sleep]
       else [])"
    by (simp add: reset_phase_def flash_locals_fields)
  from pre tr rs show ?thesis
    by (intro exI [of _ "switch_phase h ?v @ erase_phase ?v
      @ fst (write_loop fuel h ?v img \<lparr>pos = 0, eof = False\<rparr> 0) @ end_phase h ?v"]) simp
qed

theorem reset_status_iff_flag_witness:
  "snd (flash 10 demo_headers demo_locals) = Return 0
   \<and> (\<exists>pre. (\<forall>e\<in>set pre. \<not> is_reset e)
        \<and> fst (flash 10 demo_headers demo_locals) = pre @ [Reset_module 5, Sleep, Get_status 5])
   \<and> snd (flash 10 demo_headers demo_locals2) = Return 0
   \<and> (\<exists>pre. (\<forall>e\<in>set pre. \<not> is_reset e)
        \<and> fst (flash 10 demo_headers demo_locals2) = pre @ [Reset_module 5, Sleep])"
proof -
  have a: "snd (flash 10 demo_headers demo_locals) = Return 0"
    by code_simp
  have b: "snd (flash 10 demo_headers demo_locals2) = Return 0"
    by code_simp
  have a': "flash 10 demo_headers demo_locals = (fst (flash 10 demo_headers demo_locals), Return 0)"
    using a by (simp add: prod_eq_iff)
  have b': "flash 10 demo_headers demo_locals2 = (fst (flash 10 demo_headers demo_locals2), Return 0)"
    using b by (simp add: prod_eq_iff)
  have c: "\<exists>pre. (\<forall>e\<in>set pre. \<not> is_reset e)
        \<and> fst (flash 10 demo_headers demo_locals) = pre @ [Reset_module 5, Sleep, Get_status 5]"
    using reset_status_iff_flag [OF a'] by (simp add: demo_hw demo_flag_values)
  have d: "\<exists>pre. (\<forall>e\<in>set pre. \<not> is_reset e)
        \<and> fst (flash 10 demo_headers demo_locals2) = pre @ [Reset_module 5, Sleep]"
    using reset_status_iff_flag [OF b'] by (simp add: demo_hw demo_flag_values)
  show ?thesis
    by (intro conjI a b c d)
qed

text \<open>C4.  A session that returns 0 is expected to have written every block of the image
  that is not empty, between the erase calls and the end of programming.  It has not:
  the write loop can be left before the end of the image.  For the image of 67 bytes
  whose table names a sub-range that reaches behind the last byte, the checksum helper
  leaves the end-of-file indicator set in the round at offset 32, and the session makes
  its calls in the expected order and returns 0 with the blocks at the offsets 0 and 32
  written and the block at offset 64, which holds the bytes 7, 8, 9, neither read nor
  written.  From a pipe, where \<^verbatim>\<open>fseek\<close> fails, the session erases the flash, writes
  nothing, ends the programming and returns 0 as well.\<close>

theorem nonempty_block_left_unwritten:
  "main 10 demo_headers (world_with (regular_file long_range_image)) [Opt_f ''fw.bin''] 1
     = ([Query_modules, Get_status 5,
         Switch_to_bootloader 5, Sleep, Get_status 5,
         Erase_flashblocks False 5 1 0, Erase_flashblocks False 5 1 1,
         Erase_flashblocks False 5 1 2,
         Read_block 0 (padded_block 32 long_range_image 0),
         Write_block False 5 0x1000 (padded_block 32 long_range_image 0) 1 8,
         Read_block 32 (padded_block 32 long_range_image 32),
         Calc_crc16 0 4,
         Calc_crc16 32 258,
         Write_block False 5 0x1020
           ((padded_block 32 long_range_image 32)[16 := 0xCA, 17 := 0x03, 28 := 0xE4, 29 := 0x03])
           1 8,
         End_programming 5, Sleep, Get_status 5,
         Reset_module 5, Sleep, Get_status 5],
        Return 0)
   \<and> padded_block 32 long_range_image 64 = [7, 8, 9] @ replicate 31 0xFF
   \<and> main 10 demo_headers (world_with (pipe demo_image)) [Opt_f ''fw.bin''] 1
     = ([Query_modules, Get_status 5,
         Switch_to_bootloader 5, Sleep, Get_status 5,
         Erase_flashblocks False 5 1 0, Erase_flashblocks False 5 1 1,
         Erase_flashblocks False 5 1 2,
         End_programming 5, Sleep, Get_status 5,
         Reset_module 5, Sleep, Get_status 5],
        Return 0)
   \<and> padded_block 32 demo_image 0 = [0xF1, 0xF2, 0xF3, 0xF4] @ replicate 30 0xFF"
proof -
  have a: "main 10 demo_headers (world_with (regular_file long_range_image)) [Opt_f ''fw.bin''] 1
     = ([Query_modules, Get_status 5,
         Switch_to_bootloader 5, Sleep, Get_status 5,
         Erase_flashblocks False 5 1 0, Erase_flashblocks False 5 1 1,
         Erase_flashblocks False 5 1 2,
         Read_block 0 (padded_block 32 long_range_image 0),
         Write_block False 5 0x1000 (padded_block 32 long_range_image 0) 1 8,
         Read_block 32 (padded_block 32 long_range_image 32),
         Calc_crc16 0 4,
         Calc_crc16 32 258,
         Write_block False 5 0x1020
           ((padded_block 32 long_range_image 32)[16 := 0xCA, 17 := 0x03, 28 := 0xE4, 29 := 0x03])
           1 8,
         End_programming 5, Sleep, Get_status 5,
         Reset_module 5, Sleep, Get_status 5],
        Return 0)"
    by code_simp
  have b: "padded_block 32 long_range_image 64 = [7, 8, 9] @ replicate 31 0xFF"
    by code_simp
  have c: "main 10 demo_headers (world_with (pipe demo_image)) [Opt_f ''fw.bin''] 1
     = ([Query_modules, Get_status 5,
         Switch_to_bootloader 5, Sleep, Get_status 5,
         Erase_flashblocks False 5 1 0, Erase_flashblocks False 5 1 1,
         Erase_flashblocks False 5 1 2,
         End_programming 5, Sleep, Get_status 5,
         Reset_module 5, Sleep, Get_status 5],
        Return 0)"
    by code_simp
  have d: "padded_block 32 demo_image 0 = [0xF1, 0xF2, 0xF3, 0xF4] @ replicate 30 0xFF"
    by code_simp
  show ?thesis
    by (intro conjI a b c d)
qed

subsection \<open>The checksum patcher\<close>

text \<open>The byte order and the width of the fields: the low byte comes first, a store keeps
  the low bytes of a number, and a signed field is read as two's complement.\<close>

lemma le_val_le_bytes: "le_val (le_bytes n v) = v mod 256 ^ n"
proof (induction n arbitrary: v)
  case 0
  show ?case by simp
next
  case (Suc n)
  have u: "unat (word_of_nat v :: u8) = v mod 256"
    by (simp add: unat_of_nat)
  have "le_val (le_bytes (Suc n) v) = v mod 256 + 256 * ((v div 256) mod 256 ^ n)"
    by (simp only: le_bytes.simps le_val.simps u Suc.IH)
  also have "\<dots> = v mod (256 * 256 ^ n)"
    by (simp only: mod_mult2_eq)
  finally show ?case by (simp only: power_Suc)
qed

lemma le_bytes_2: "le_bytes 2 v = [word_of_nat v, word_of_nat (v div 256)]"
  by (simp add: numeral_2_eq_2)

lemma le_bytes_4:
  "le_bytes 4 v = [word_of_nat v, word_of_nat (v div 256), word_of_nat (v div 256 div 256),
     word_of_nat (v div 256 div 256 div 256)]"
  by (simp add: numeral_Bit0 [of "num.Bit0 num.One", where ?'a = nat] numeral_2_eq_2)

lemma byte_order_values:
  "le_val [0x02, 0x01, 0, 0] = 258"
  "le_bytes 2 0x03CA = [0xCA, 0x03]"
  "le_bytes 2 0x1203CA = [0xCA, 0x03]"
  "le_bytes 4 0x01020304 = [0x04, 0x03, 0x02, 0x01]"
  "decode U16 [0xFE, 0xFF] = 65534"
  "decode S16 [0xFE, 0xFF] = - 2"
  "load [0xAA, 0x34, 0x12, 0xBB] 1 U16 = Some 0x1234"
  "store [0xAA, 0, 0, 0xBB] 1 U16 0x1234 = Some [0xAA, 0x34, 0x12, 0xBB]"
  "load [0xAA, 0x34, 0x12, 0xBB] 3 U16 = None"
  "store [0xAA, 0, 0, 0xBB] 3 U16 0x1234 = None"
  by (simp_all add: load_def store_def decode_def le_bytes_2 le_bytes_4)

text \<open>C1.  For every sub-range that a table with matching identification string and a
  supported mode declares, the checksum field in the block is expected to be overwritten
  and the run to go on.  The code does so without looking at the size of \<^verbatim>\<open>buf\<close>: the
  loop runs up to the count that the image holds.  In the image below the table at
  offset 32 has the identification string, mode 1 and count 3.  The block is read into
  the 34 bytes of \<^verbatim>\<open>buf\<close>; the first two sub-ranges lie in it and are processed; the
  address of the third would have to be read from the bytes 32 to 35 of \<^verbatim>\<open>buf\<close>, and its
  checksum stored at the bytes 40 and 41: the run leaves the array, after the flash was
  erased and with only the first block written.\<close>

theorem table_beyond_buffer:
  "ident_matches demo_headers (padded_block 32 count3_image 32) 0
   \<and> mode_supported demo_headers (padded_block 32 count3_image 32) 0
   \<and> peek (padded_block 32 count3_image 32) (count_off demo_layout) (count_ty demo_layout) = 3
   \<and> length (padded_block 32 count3_image 32) = 34
   \<and> block_pos demo_layout 0 2 + address_off demo_layout = 32
   \<and> block_pos demo_layout 0 2 + crc_off demo_layout = 40
   \<and> main 10 demo_headers (world_with (regular_file count3_image)) [Opt_f ''fw.bin''] 1
     = ([Query_modules, Get_status 5,
         Switch_to_bootloader 5, Sleep, Get_status 5,
         Erase_flashblocks False 5 1 0, Erase_flashblocks False 5 1 1,
         Erase_flashblocks False 5 1 2,
         Read_block 0 (padded_block 32 count3_image 0),
         Write_block False 5 0x1000 (padded_block 32 count3_image 0) 1 8,
         Read_block 32 (padded_block 32 count3_image 32),
         Calc_crc16 0 4,
         Calc_crc16 32 3],
        Out_of_bounds)"
proof -
  have a: "ident_matches demo_headers (padded_block 32 count3_image 32) 0"
    by code_simp
  have b: "mode_supported demo_headers (padded_block 32 count3_image 32) 0"
    by code_simp
  have c: "peek (padded_block 32 count3_image 32) (count_off demo_layout) (count_ty demo_layout)
      = 3"
    by code_simp
  have d: "length (padded_block 32 count3_image 32) = 34"
    by code_simp
  have e: "block_pos demo_layout 0 2 + address_off demo_layout = 32"
    by code_simp
  have f: "block_pos demo_layout 0 2 + crc_off demo_layout = 40"
    by code_simp
  have g: "main 10 demo_headers (world_with (regular_file count3_image)) [Opt_f ''fw.bin''] 1
     = ([Query_modules, Get_status 5,
         Switch_to_bootloader 5, Sleep, Get_status 5,
         Erase_flashblocks False 5 1 0, Erase_flashblocks False 5 1 1,
         Erase_flashblocks False 5 1 2,
         Read_block 0 (padded_block 32 count3_image 0),
         Write_block False 5 0x1000 (padded_block 32 count3_image 0) 1 8,
         Read_block 32 (padded_block 32 count3_image 32),
         Calc_crc16 0 4,
         Calc_crc16 32 3],
        Out_of_bounds)"
    by code_simp
  show ?thesis
    by (intro conjI a b c d e f g)
qed

end
